theory Spec2Isabelle
  imports Complex_Main
begin

section \<open>The analytics collector of the VR analytics platform\<close>

text \<open>
  A shallow embedding of the class \<open>AnalyticsCollector\<close>. A JavaScript number is
  modelled as the \<^typ>\<open>real\<close> it denotes, and every arithmetic operation of the
  source as the exact operation followed by the rounding \<open>rd\<close> to the nearest double
  (next subsection); the one division whose divisor can be zero is modelled with the
  IEEE special results written out.
  \<open>performance.now()\<close> is an oracle: the collector carries the function \<open>clock\<close>
  and the number \<open>ticks\<close> of readings its methods have taken so far, and every reading
  returns \<open>clock ticks\<close> and advances \<open>ticks\<close>. \<open>localStorage\<close> is the field
  \<open>storage\<close> together with the predicate \<open>setItem_ok\<close> that says which writes the
  browser accepts. Console output is not modelled, except that every
  \<open>console.warn\<close> of \<open>persistEvent\<close> is recorded in \<open>warnings\<close>.
\<close>

subsection \<open>Double-precision arithmetic\<close>

text \<open>
  A double is a number \<open>m * 2\<^sup>e\<close> with an integer \<open>m\<close> of at most 53 bits. \<open>binade x\<close>
  is the exponent of the power of two at or below \<open>\<bar>x\<bar>\<close>, \<open>ulp x\<close> the distance of
  neighbouring doubles in that binade, and \<open>rd x\<close> the double nearest to \<open>x\<close>, a tie
  going to the even multiple of \<open>ulp x\<close>: the rounding of IEEE 754 that JavaScript
  prescribes. The range of the exponent is not bounded here: results that overflow to an
  infinity or fall into the subnormal range are outside the model.
\<close>

definition binade :: "real \<Rightarrow> int" where
  "binade x = \<lfloor>log 2 \<bar>x\<bar>\<rfloor>"

definition ulp :: "real \<Rightarrow> real" where
  "ulp x = 2 powr of_int (binade x - 52)"

definition round_half_even :: "real \<Rightarrow> int" where
  "round_half_even y =
     (let f = \<lfloor>y\<rfloor>; r = y - of_int f
      in if r < 1 / 2 then f else if 1 / 2 < r then f + 1 else if even f then f else f + 1)"

definition rd :: "real \<Rightarrow> real" where
  "rd x = (if x = 0 then 0 else of_int (round_half_even (x / ulp x)) * ulp x)"

text \<open>The operations \<open>+\<close>, \<open>-\<close>, \<open>*\<close>, \<open>/\<close> (for a divisor other than zero) and
  \<open>Math.sqrt\<close> on doubles. A decimal literal of the source that is not itself a double,
  such as \<open>0.1\<close>, is written \<open>rd (1 / 10)\<close>.\<close>

definition fadd :: "real \<Rightarrow> real \<Rightarrow> real" where
  "fadd a b = rd (a + b)"

definition fsub :: "real \<Rightarrow> real \<Rightarrow> real" where
  "fsub a b = rd (a - b)"

definition fmul :: "real \<Rightarrow> real \<Rightarrow> real" where
  "fmul a b = rd (a * b)"

definition fdiv :: "real \<Rightarrow> real \<Rightarrow> real" where
  "fdiv a b = rd (a / b)"

definition fsqrt :: "real \<Rightarrow> real" where
  "fsqrt a = rd (sqrt a)"

subsection \<open>Data\<close>

record vec3 =
  vx :: real
  vy :: real
  vz :: real

record spatial =
  sp_objectType :: string
  sp_position :: vec3
  sp_rotation :: vec3
  sp_scale :: "vec3 option"
  sp_timestamp :: real

record perf =
  pf_fps :: real
  pf_renderTime :: real
  pf_memoryUsage :: "real option"
  pf_timestamp :: real
  pf_isVRMode :: bool

text \<open>
  The keys of an event that a caller's \<open>data\<close> object can carry. \<open>logEvent\<close>
  spreads \<open>data\<close> last into the event, and \<open>logInteraction\<close> spreads its \<open>data\<close>
  last into the interaction that it then passes to \<open>logEvent\<close>, so a key that is
  present replaces the value the method computed. A key is taken to hold a value of the
  type of the field it replaces (an event type that is not a string equals none of the
  types the collector compares it with, as any string other than those does).
\<close>

record overrides =
  ov_sessionId :: "string option"
  ov_eventType :: "string option"
  ov_timestamp :: "real option"
  ov_relativeTime :: "real option"
  ov_isVRMode :: "bool option"

text \<open>The value of a field that the key \<open>v\<close> of the spread object replaces when it is
  present.\<close>

definition replaced_by :: "'a option \<Rightarrow> 'a \<Rightarrow> 'a" where
  "replaced_by v own = (case v of Some x \<Rightarrow> x | None \<Rightarrow> own)"

definition no_overrides :: overrides where
  "no_overrides = \<lparr>ov_sessionId = None, ov_eventType = None, ov_timestamp = None,
                     ov_relativeTime = None, ov_isVRMode = None\<rparr>"

text \<open>The caller's \<open>data\<close> argument of \<open>logInteraction\<close>: the keys of the interaction
  and of the event that it can replace (\<open>id_position\<close> is \<open>Some None\<close> for a key that
  holds null), and the other keys as an opaque list. The method sets \<open>duration\<close> and
  \<open>force\<close> to \<open>data.duration || null\<close> and \<open>data.force || null\<close> and then spreads
  \<open>data\<close> over the record, so each ends as the value of the key in \<open>data\<close>, or null
  when \<open>data\<close> lacks the key.\<close>

record idata =
  id_type :: "string option"
  id_target :: "string option"
  id_position :: "vec3 option option"
  id_duration :: "real option"
  id_force :: "real option"
  id_vrMode :: "bool option"
  id_keys :: overrides
  id_extra :: "(string \<times> string) list"

text \<open>An interaction; \<open>ia_keys\<close> holds the keys \<open>sessionId\<close>, \<open>eventType\<close>,
  \<open>relativeTime\<close> and \<open>isVRMode\<close> that the caller's \<open>data\<close> put into it.\<close>

record interaction =
  ia_type :: string
  ia_target :: string
  ia_position :: "vec3 option"
  ia_duration :: "real option"
  ia_force :: "real option"
  ia_timestamp :: real
  ia_vrMode :: bool
  ia_keys :: overrides
  ia_extra :: "(string \<times> string) list"

record movement =
  totalDistance :: real
  averageVelocity :: real
  maxVelocity :: real
  movementIntensity :: string

text \<open>
  The \<open>data\<close> argument of \<open>logEvent\<close>, one constructor for each shape the collector
  itself passes, and \<open>Custom\<close> for the data of an outside caller that has none of the
  keys the handlers read (\<open>current\<close>, \<open>newMode\<close>, \<open>transitionTime\<close>): the keys of
  the event that it replaces and the remaining keys, opaque. Data of an outside
  caller with a key that a handler reads is the constructor of that shape.
\<close>

datatype payload =
    NoData
  | Custom overrides "(string \<times> string) list"
  | InteractionData interaction
  | SpatialTracking "spatial list" "movement option"
  | PerformanceMetrics perf real real string
  | VRModeChange bool bool real
  | RapidInteraction string real nat
  | LowFps real string
  | HighRenderTime real string
  | VRExperienceStart "real option" string
  | VRExperienceEnd real "real option"

record event =
  ev_sessionId :: string
  eventType :: string
  ev_timestamp :: real
  relativeTime :: real
  ev_isVRMode :: bool
  ev_data :: payload

record interactionMetrics =
  im_totalInteractions :: nat
  im_interactionTypes :: "string \<Rightarrow> nat option"
  im_averageTimeBetweenInteractions :: real
  im_lastInteractionTime :: "real option"

datatype stored = Blocked | Absent | Corrupt | Valid "event list"

datatype sink_error = SecurityError | SyntaxError | QuotaExceededError

record collector =
  events :: "event list"
  sessionId :: string
  startTime :: real
  isVRMode :: bool
  userInteractions :: "interaction list"
  performanceMetrics :: "perf list"
  spatialData :: "spatial list"
  platform :: string
  vrCapable :: bool
  vrSessionStart :: "real option"
  sd_interactionMetrics :: "interactionMetrics option"
  clock :: "nat \<Rightarrow> real"
  ticks :: nat
  storage :: stored
  setItem_ok :: "event list \<Rightarrow> bool"
  warnings :: "sink_error list"

subsection \<open>JavaScript primitives\<close>

definition now :: "collector \<Rightarrow> real \<times> collector" where
  "now s = (clock s (ticks s), s\<lparr>ticks := Suc (ticks s)\<rparr>)"

text \<open>\<open>Math.round\<close>: the nearest integer, a tie going up.\<close>

definition js_round :: "real \<Rightarrow> int" where
  "js_round x = \<lfloor>x + 1 / 2\<rfloor>"

text \<open>\<open>Math.round(x * k) / k\<close>.\<close>

definition round_to :: "real \<Rightarrow> real \<Rightarrow> real" where
  "round_to k x = fdiv (real_of_int (js_round (fmul x k))) k"

text \<open>\<open>xs.slice(-n)\<close> and \<open>xs.slice(-a, -b)\<close> for positive \<open>n\<close>, \<open>a\<close>, \<open>b\<close>: a start
  before the beginning of the array is the beginning.\<close>

definition slice_last :: "nat \<Rightarrow> 'a list \<Rightarrow> 'a list" where
  "slice_last n xs = drop (length xs - n) xs"

definition slice_neg :: "nat \<Rightarrow> nat \<Rightarrow> 'a list \<Rightarrow> 'a list" where
  "slice_neg a b xs = take ((length xs - b) - (length xs - a)) (drop (length xs - a) xs)"

text \<open>A JavaScript truthiness test of a field that is undefined or a number.\<close>

definition truthy :: "real option \<Rightarrow> bool" where
  "truthy v = (case v of None \<Rightarrow> False | Some t \<Rightarrow> t \<noteq> 0)"

text \<open>\<open>v || d\<close> for such a field.\<close>

definition or_else :: "real option \<Rightarrow> real \<Rightarrow> real" where
  "or_else v d = (case v of None \<Rightarrow> d | Some t \<Rightarrow> if t \<noteq> 0 then t else d)"

subsection \<open>Persisting an event\<close>

definition isImportantEvent :: "string \<Rightarrow> bool" where
  "isImportantEvent eventType' = (eventType' \<in> set [''session_start'', ''session_end'',
     ''vr_mode_change'', ''performance_warning'', ''error'', ''task_completion''])"

text \<open>The body of the \<open>try\<close> block of \<open>persistEvent\<close>: \<open>getItem\<close> can raise,
  \<open>JSON.parse\<close> raises on a corrupt value, \<open>setItem\<close> raises when the browser
  refuses the write.\<close>

definition sink_append :: "event \<Rightarrow> collector \<Rightarrow> sink_error + stored" where
  "sink_append ev s =
     (case storage s of
        Blocked \<Rightarrow> Inl SecurityError
      | Corrupt \<Rightarrow> Inl SyntaxError
      | st \<Rightarrow>
          (let es = (case st of Valid old \<Rightarrow> old | _ \<Rightarrow> []) @ [ev];
               es' = (if length es > 1000 then drop (length es - 1000) es else es)
           in if setItem_ok s es' then Inr (Valid es') else Inl QuotaExceededError))"

definition persistEvent :: "event \<Rightarrow> collector \<Rightarrow> collector" where
  "persistEvent ev s =
     (case sink_append ev s of
        Inl err \<Rightarrow> s\<lparr>warnings := warnings s @ [err]\<rparr>
      | Inr st \<Rightarrow> s\<lparr>storage := st\<rparr>)"

subsection \<open>Logging an event and its real-time processing\<close>

text \<open>What the handlers read from an event: a missing key is \<open>undefined\<close>.\<close>

fun payload_overrides :: "payload \<Rightarrow> overrides" where
  "payload_overrides (Custom ov _) = ov"
| "payload_overrides (InteractionData i) = (ia_keys i)\<lparr>ov_timestamp := Some (ia_timestamp i)\<rparr>"
| "payload_overrides _ = no_overrides"

fun payload_current :: "payload \<Rightarrow> perf option" where
  "payload_current (PerformanceMetrics p _ _ _) = Some p"
| "payload_current _ = None"

fun payload_newMode :: "payload \<Rightarrow> bool" where
  "payload_newMode (VRModeChange _ n _) = n"
| "payload_newMode _ = False"

fun payload_transitionTime :: "payload \<Rightarrow> real option" where
  "payload_transitionTime (VRModeChange _ _ t) = Some t"
| "payload_transitionTime _ = None"

text \<open>The event type that an event logged as \<open>eventType'\<close> with \<open>data\<close> ends with.\<close>

definition effectiveType :: "string \<Rightarrow> payload \<Rightarrow> string" where
  "effectiveType eventType' data = replaced_by (ov_eventType (payload_overrides data)) eventType'"

text \<open>The object literal of \<open>logEvent\<close>, \<open>t1\<close> and \<open>t2\<close> being its two readings of the
  clock.\<close>

definition mkEvent :: "string \<Rightarrow> payload \<Rightarrow> collector \<Rightarrow> real \<Rightarrow> real \<Rightarrow> event" where
  "mkEvent eventType' data s t1 t2 =
     (let ov = payload_overrides data
      in \<lparr>ev_sessionId = replaced_by (ov_sessionId ov) (sessionId s),
          eventType = effectiveType eventType' data,
          ev_timestamp = replaced_by (ov_timestamp ov) t1,
          relativeTime = replaced_by (ov_relativeTime ov) (fsub t2 (startTime s)),
          ev_isVRMode = replaced_by (ov_isVRMode ov) (isVRMode s),
          ev_data = data\<rparr>)"

text \<open>The \<open>reduce\<close> of \<open>processInteractionEvent\<close> over the timestamps.\<close>

definition gap_sum :: "real list \<Rightarrow> real" where
  "gap_sum ts =
     foldl (\<lambda>sum i. if i = 0 then 0 else fadd sum (fsub (ts ! i) (ts ! (i - 1)))) 0
       [0..<length ts]"

text \<open>Whether \<open>processEventRealTime\<close> has a handler for an event type. The handlers
  log events of other types only, which is why the recursion below ends.\<close>

definition dispatches :: "string \<Rightarrow> nat" where
  "dispatches ty = (if ty = ''user_interaction'' \<or> ty = ''performance_metrics''
                      \<or> ty = ''vr_mode_change'' then 1 else 0)"

function logEvent :: "string \<Rightarrow> payload \<Rightarrow> collector \<Rightarrow> event \<times> collector"
  and processEventRealTime :: "event \<Rightarrow> collector \<Rightarrow> collector"
  and processInteractionEvent :: "event \<Rightarrow> collector \<Rightarrow> collector"
  and processPerformanceEvent :: "event \<Rightarrow> collector \<Rightarrow> collector"
  and processVRModeChange :: "event \<Rightarrow> collector \<Rightarrow> collector"
where
  "logEvent eventType' data s =
     (let (t1, s1) = now s;
          (t2, s2) = now s1;
          ev = mkEvent eventType' data s t1 t2;
          s3 = s2\<lparr>events := events s2 @ [ev]\<rparr>;
          s4 = processEventRealTime ev s3;
          s5 = (if isImportantEvent eventType' then persistEvent ev s4 else s4)
      in (ev, s5))"
| "processEventRealTime ev s =
     (if eventType ev = ''user_interaction'' then processInteractionEvent ev s
      else if eventType ev = ''performance_metrics'' then processPerformanceEvent ev s
      else if eventType ev = ''vr_mode_change'' then processVRModeChange ev s
      else s)"
| "processInteractionEvent ev s =
     (let recentInteractions = slice_last 5 (userInteractions s)
      in if length recentInteractions \<ge> 3 then
           (let avgTimeBetween = fdiv (gap_sum (map ia_timestamp recentInteractions))
                                   (real (length recentInteractions - 1))
            in if avgTimeBetween < 500 then
                 snd (logEvent ''rapid_interaction_detected''
                        (RapidInteraction ''high_frequency'' avgTimeBetween
                           (length recentInteractions)) s)
               else s)
         else s)"
| "processPerformanceEvent ev s =
     (let s1 = (case payload_current (ev_data ev) of
                  Some cur \<Rightarrow>
                    if pf_fps cur < 30 then
                      snd (logEvent ''performance_warning''
                             (LowFps (pf_fps cur)
                                (if pf_fps cur < 15 then ''critical'' else ''warning'')) s)
                    else s
                | None \<Rightarrow> s)
      in (case payload_current (ev_data ev) of
            Some cur \<Rightarrow>
              if pf_renderTime cur > rd 16.67 then
                snd (logEvent ''performance_warning''
                       (HighRenderTime (pf_renderTime cur)
                          (if pf_renderTime cur > rd 33.33 then ''critical''
                           else ''warning'')) s1)
              else s1
          | None \<Rightarrow> s1))"
| "processVRModeChange ev s =
     (if payload_newMode (ev_data ev) then
        snd (logEvent ''vr_experience_start''
               (VRExperienceStart (payload_transitionTime (ev_data ev)) (platform s)) s)
      else
        (let (t, s1) = now s;
             vrDuration = fsub t (or_else (vrSessionStart s1) (startTime s1))
         in snd (logEvent ''vr_experience_end''
                   (VRExperienceEnd vrDuration (payload_transitionTime (ev_data ev))) s1)))"
  by pat_completeness auto
termination
  apply (relation "measure
    (case_sum
       (case_sum (\<lambda>(ty, d, s). 4 * dispatches (effectiveType ty d) + 2)
                 (\<lambda>(ev, s). 4 * dispatches (eventType ev) + 1))
       (case_sum (\<lambda>_. 3) (case_sum (\<lambda>_. 3) (\<lambda>_. 3))))")
  apply (auto simp: dispatches_def mkEvent_def effectiveType_def no_overrides_def
      replaced_by_def Let_def)
  done

subsection \<open>Interactions\<close>

definition updateInteractionMetrics :: "interaction \<Rightarrow> collector \<Rightarrow> collector" where
  "updateInteractionMetrics i s =
     (let m0 = (case sd_interactionMetrics s of
                  None \<Rightarrow> \<lparr>im_totalInteractions = 0, im_interactionTypes = Map.empty,
                            im_averageTimeBetweenInteractions = 0,
                            im_lastInteractionTime = None\<rparr>
                | Some m \<Rightarrow> m);
          n = im_totalInteractions m0 + 1;
          c = (case im_interactionTypes m0 (ia_type i) of None \<Rightarrow> 0 | Some k \<Rightarrow> k);
          types = (im_interactionTypes m0)(ia_type i \<mapsto> c + 1);
          avg = (if truthy (im_lastInteractionTime m0) then
                   fdiv (fadd (fmul (im_averageTimeBetweenInteractions m0) (real (n - 1)))
                           (fsub (ia_timestamp i) (or_else (im_lastInteractionTime m0) 0)))
                     (real n)
                 else im_averageTimeBetweenInteractions m0)
      in s\<lparr>sd_interactionMetrics :=
              Some \<lparr>im_totalInteractions = n, im_interactionTypes = types,
                    im_averageTimeBetweenInteractions = avg,
                    im_lastInteractionTime = Some (ia_timestamp i)\<rparr>\<rparr>)"

definition logInteraction ::
  "string \<Rightarrow> string \<Rightarrow> vec3 option \<Rightarrow> idata \<Rightarrow> collector \<Rightarrow> interaction \<times> collector" where
  "logInteraction interactionType target position data s =
     (let (t, s1) = now s;
          interaction =
            \<lparr>ia_type = replaced_by (id_type data) interactionType,
             ia_target = replaced_by (id_target data) target,
             ia_position = replaced_by (id_position data) position,
             ia_duration = id_duration data, ia_force = id_force data,
             ia_timestamp = replaced_by (ov_timestamp (id_keys data)) t,
             ia_vrMode = replaced_by (id_vrMode data) (isVRMode s),
             ia_keys = id_keys data, ia_extra = id_extra data\<rparr>;
          s2 = snd (logEvent ''user_interaction'' (InteractionData interaction) s1);
          s3 = s2\<lparr>userInteractions := userInteractions s2 @ [interaction]\<rparr>;
          s4 = updateInteractionMetrics interaction s3
      in (interaction, s4))"

subsection \<open>Spatial samples and movement metrics\<close>

definition classifyMovementIntensity :: "real \<Rightarrow> string" where
  "classifyMovementIntensity velocity =
     (if velocity < rd 0.1 then ''stationary''
      else if velocity < 0.5 then ''slow''
      else if velocity < 1.0 then ''moderate''
      else if velocity < 2.0 then ''active''
      else ''rapid'')"

text \<open>\<open>Math.pow(x, 2)\<close>, and the distance of two positions as the loop computes it.\<close>

definition fsquare :: "real \<Rightarrow> real" where
  "fsquare x = rd (x\<^sup>2)"

definition distance3 :: "vec3 \<Rightarrow> vec3 \<Rightarrow> real" where
  "distance3 c p =
     fsqrt (fadd (fadd (fsquare (fsub (vx c) (vx p))) (fsquare (fsub (vy c) (vy p))))
              (fsquare (fsub (vz c) (vz p))))"

text \<open>The \<open>for\<close> loop of \<open>calculateMovementMetrics\<close>, from \<open>i = 1\<close>: the head of the list
  is \<open>recent[i - 1]\<close>, the accumulators are \<open>totalDistance\<close> and \<open>maxVelocity\<close>.\<close>

fun movementLoop :: "spatial list \<Rightarrow> real \<Rightarrow> real \<Rightarrow> real \<times> real" where
  "movementLoop (prv # cur # rest) totalD maxV =
     (let distance = distance3 (sp_position cur) (sp_position prv);
          timeDelta = fdiv (fsub (sp_timestamp cur) (sp_timestamp prv)) 1000;
          velocity = fdiv distance (max timeDelta (rd 0.001))
      in movementLoop (cur # rest) (fadd totalD distance) (max maxV velocity))"
| "movementLoop _ totalD maxV = (totalD, maxV)"

definition calculateMovementMetrics :: "collector \<Rightarrow> movement option" where
  "calculateMovementMetrics s =
     (if length (spatialData s) < 2 then None
      else
        (let recent = slice_last 30 (spatialData s);
             (totalD, maxV) = movementLoop recent 0 0
         in Some \<lparr>totalDistance = round_to 1000 totalD,
                  averageVelocity = round_to 1000 (fdiv totalD (real (length recent - 1))),
                  maxVelocity = round_to 1000 maxV,
                  movementIntensity = classifyMovementIntensity maxV\<rparr>))"

definition round_vec3 :: "vec3 \<Rightarrow> vec3" where
  "round_vec3 v = \<lparr>vx = round_to 1000 (vx v), vy = round_to 1000 (vy v),
                   vz = round_to 1000 (vz v)\<rparr>"

definition mkSpatial :: "vec3 \<Rightarrow> vec3 \<Rightarrow> vec3 option \<Rightarrow> string \<Rightarrow> real \<Rightarrow> spatial" where
  "mkSpatial position rotation scale objectType t =
     \<lparr>sp_objectType = objectType, sp_position = round_vec3 position,
      sp_rotation = round_vec3 rotation, sp_scale = map_option round_vec3 scale,
      sp_timestamp = t\<rparr>"

definition logSpatialData ::
  "vec3 \<Rightarrow> vec3 \<Rightarrow> vec3 option \<Rightarrow> string \<Rightarrow> collector \<Rightarrow> collector" where
  "logSpatialData position rotation scale objectType s =
     (let (t, s1) = now s;
          spatialEvent = mkSpatial position rotation scale objectType t;
          s2 = s1\<lparr>spatialData := spatialData s1 @ [spatialEvent]\<rparr>;
          s3 = (if length (spatialData s2) mod 30 = 0 then
                  snd (logEvent ''spatial_tracking''
                         (SpatialTracking (slice_last 30 (spatialData s2))
                            (calculateMovementMetrics s2)) s2)
                else s2)
      in if length (spatialData s3) > 1800 then
           s3\<lparr>spatialData := slice_last 1800 (spatialData s3)\<rparr>
         else s3)"

subsection \<open>Performance samples and their statistics\<close>

definition calculateAverageFPS :: "collector \<Rightarrow> real" where
  "calculateAverageFPS s =
     (if length (performanceMetrics s) = 0 then 0
      else
        (let recent = slice_last 300 (performanceMetrics s);
             sum = foldl (\<lambda>acc metric. fadd acc (pf_fps metric)) 0 recent
         in round_to 10 (fdiv sum (real (length recent)))))"

definition calculateAverageRenderTime :: "collector \<Rightarrow> real" where
  "calculateAverageRenderTime s =
     (if length (performanceMetrics s) = 0 then 0
      else
        (let recent = slice_last 300 (performanceMetrics s);
             sum = foldl (\<lambda>acc metric. fadd acc (pf_renderTime metric)) 0 recent
         in round_to 100 (fdiv sum (real (length recent)))))"

text \<open>
  The value of \<open>((recentAvg - olderAvg) / olderAvg) * 100\<close>: \<open>olderAvg\<close> can be zero,
  and then JavaScript gives an infinity or \<open>NaN\<close>, which the two comparisons of
  \<open>getPerformanceTrend\<close> see.
\<close>

datatype jsnum = Finite real | PosInfinity | NegInfinity | NaN

definition js_div :: "real \<Rightarrow> real \<Rightarrow> jsnum" where
  "js_div a b = (if b \<noteq> 0 then Finite (fdiv a b)
                 else if a > 0 then PosInfinity
                 else if a < 0 then NegInfinity
                 else NaN)"

fun js_times100 :: "jsnum \<Rightarrow> jsnum" where
  "js_times100 (Finite r) = Finite (fmul r 100)"
| "js_times100 x = x"

fun js_gt :: "jsnum \<Rightarrow> real \<Rightarrow> bool" where
  "js_gt (Finite r) c = (r > c)"
| "js_gt PosInfinity c = True"
| "js_gt _ c = False"

fun js_lt :: "jsnum \<Rightarrow> real \<Rightarrow> bool" where
  "js_lt (Finite r) c = (r < c)"
| "js_lt NegInfinity c = True"
| "js_lt _ c = False"

definition getPerformanceTrend :: "collector \<Rightarrow> string" where
  "getPerformanceTrend s =
     (if length (performanceMetrics s) < 120 then ''insufficient_data''
      else
        (let recent = slice_last 60 (performanceMetrics s);
             older = slice_neg 120 60 (performanceMetrics s);
             recentAvg = fdiv (foldl (\<lambda>acc m. fadd acc (pf_fps m)) 0 recent)
                           (real (length recent));
             olderAvg = fdiv (foldl (\<lambda>acc m. fadd acc (pf_fps m)) 0 older)
                          (real (length older));
             change = js_times100 (js_div (fsub recentAvg olderAvg) olderAvg)
         in if js_gt change 5 then ''improving''
            else if js_lt change (- 5) then ''degrading''
            else ''stable''))"

definition mkPerf :: "real \<Rightarrow> real \<Rightarrow> real option \<Rightarrow> real \<Rightarrow> bool \<Rightarrow> perf" where
  "mkPerf fps renderTime memoryUsage t vr =
     \<lparr>pf_fps = round_to 10 fps, pf_renderTime = round_to 100 renderTime,
      pf_memoryUsage = memoryUsage, pf_timestamp = t, pf_isVRMode = vr\<rparr>"

definition logPerformance :: "real \<Rightarrow> real \<Rightarrow> real option \<Rightarrow> collector \<Rightarrow> collector" where
  "logPerformance fps renderTime memoryUsage s =
     (let (t, s1) = now s;
          performanceData = mkPerf fps renderTime memoryUsage t (isVRMode s);
          s2 = s1\<lparr>performanceMetrics := performanceMetrics s1 @ [performanceData]\<rparr>;
          s3 = (if length (performanceMetrics s2) mod 300 = 0 then
                  snd (logEvent ''performance_metrics''
                         (PerformanceMetrics performanceData (calculateAverageFPS s2)
                            (calculateAverageRenderTime s2) (getPerformanceTrend s2)) s2)
                else s2)
      in if length (performanceMetrics s3) > 1800 then
           s3\<lparr>performanceMetrics := slice_last 1800 (performanceMetrics s3)\<rparr>
         else s3)"

subsection \<open>VR mode\<close>

definition setVRMode :: "bool \<Rightarrow> collector \<Rightarrow> collector" where
  "setVRMode isVR s =
     (let previousMode = isVRMode s;
          s1 = s\<lparr>isVRMode := isVR\<rparr>;
          (t, s2) = now s1;
          s3 = snd (logEvent ''vr_mode_change''
                      (VRModeChange previousMode isVR (fsub t (startTime s2))) s2);
          s4 = s3\<lparr>vrCapable := True\<rparr>
      in if isVR \<and> \<not> truthy (vrSessionStart s4) then
           (let (t', s5) = now s4 in s5\<lparr>vrSessionStart := Some t'\<rparr>)
         else s4)"

subsection \<open>Summary and engagement score\<close>

record summary =
  sm_sessionId :: string
  sm_duration :: real
  sm_totalEvents :: nat
  sm_totalInteractions :: nat
  sm_averageFPS :: real
  sm_vrModeUsed :: bool
  sm_interactionTypes :: "string list"
  sm_performanceTrend :: string
  sm_platform :: string
  sm_vrCapable :: bool
  sm_vrSessionStart :: "real option"
  sm_interactionMetrics :: "interactionMetrics option"
  sm_movementMetrics :: "movement option"
  sm_pm_averageFPS :: real
  sm_pm_averageRenderTime :: real
  sm_pm_performanceWarnings :: nat

text \<open>\<open>[...new Set(xs)]\<close>: the distinct elements in the order of their first occurrence.\<close>

definition distinct_in_order :: "'a list \<Rightarrow> 'a list" where
  "distinct_in_order xs = rev (remdups (rev xs))"

definition getSessionSummary :: "collector \<Rightarrow> summary \<times> collector" where
  "getSessionSummary s =
     (let (currentTime, s1) = now s;
          sessionDuration = fsub currentTime (startTime s1)
      in (\<lparr>sm_sessionId = sessionId s1,
           sm_duration = sessionDuration,
           sm_totalEvents = length (events s1),
           sm_totalInteractions = length (userInteractions s1),
           sm_averageFPS = calculateAverageFPS s1,
           sm_vrModeUsed = list_ex (\<lambda>e. eventType e = ''vr_session_start'') (events s1),
           sm_interactionTypes = distinct_in_order (map ia_type (userInteractions s1)),
           sm_performanceTrend = getPerformanceTrend s1,
           sm_platform = platform s1,
           sm_vrCapable = vrCapable s1,
           sm_vrSessionStart = vrSessionStart s1,
           sm_interactionMetrics = sd_interactionMetrics s1,
           sm_movementMetrics = calculateMovementMetrics s1,
           sm_pm_averageFPS = calculateAverageFPS s1,
           sm_pm_averageRenderTime = calculateAverageRenderTime s1,
           sm_pm_performanceWarnings =
             length (filter (\<lambda>e. eventType e = ''performance_warning'') (events s1))\<rparr>,
          s1))"

definition calculateEngagementScore :: "collector \<Rightarrow> int \<times> collector" where
  "calculateEngagementScore s =
     (let (summary, s1) = getSessionSummary s;
          duration = fdiv (sm_duration summary) 1000;
          durationScore = fmul (min (fdiv duration 300) 1) 30;
          interactionScore = fmul (min (fdiv (real (sm_totalInteractions summary)) 50) 1) 30;
          vrScore = (if sm_vrModeUsed summary then 25 else 0);
          performanceScore = (if sm_averageFPS summary > 45 then 15
                              else if sm_averageFPS summary > 30 then 10 else 5)
      in (js_round (fadd (fadd (fadd durationScore interactionScore) vrScore)
                      performanceScore), s1))"

subsection \<open>A session: the constructor and sequences of calls\<close>

text \<open>The constructor, from the session id it generated, the platform it detected and
  the browser's clock and storage. It reads the clock twice: \<open>startTime\<close> is the
  first reading, and \<open>startPerformanceMonitoring\<close> takes the second one for its
  \<open>lastTime\<close>. The frame callback that \<open>startPerformanceMonitoring\<close> registers runs
  between the calls of the methods; what it does to the collector is a call of
  \<open>logPerformance\<close>.\<close>

definition newCollector ::
  "string \<Rightarrow> string \<Rightarrow> (nat \<Rightarrow> real) \<Rightarrow> stored \<Rightarrow> (event list \<Rightarrow> bool) \<Rightarrow> collector" where
  "newCollector sid plat clk st ok =
     \<lparr>events = [], sessionId = sid, startTime = clk 0, isVRMode = False,
      userInteractions = [], performanceMetrics = [], spatialData = [],
      platform = plat, vrCapable = False, vrSessionStart = None,
      sd_interactionMetrics = None, clock = clk, ticks = 2, storage = st,
      setItem_ok = ok, warnings = []\<rparr>"

datatype call =
    LogEvent string payload
  | LogInteraction string string "vec3 option" idata
  | LogSpatialData vec3 vec3 "vec3 option" string
  | LogPerformance real real "real option"
  | SetVRMode bool
  | GetSessionSummary
  | CalculateEngagementScore

fun exec :: "collector \<Rightarrow> call \<Rightarrow> collector" where
  "exec s (LogEvent ty data) = snd (logEvent ty data s)"
| "exec s (LogInteraction ty target position data) =
     snd (logInteraction ty target position data s)"
| "exec s (LogSpatialData position rotation scale objectType) =
     logSpatialData position rotation scale objectType s"
| "exec s (LogPerformance fps renderTime memoryUsage) =
     logPerformance fps renderTime memoryUsage s"
| "exec s (SetVRMode isVR) = setVRMode isVR s"
| "exec s GetSessionSummary = snd (getSessionSummary s)"
| "exec s CalculateEngagementScore = snd (calculateEngagementScore s)"

definition run :: "collector \<Rightarrow> call list \<Rightarrow> collector" where
  "run s cs = foldl exec s cs"

subsection \<open>Auxiliary notions for the statements\<close>

definition pushed :: "string \<Rightarrow> payload \<Rightarrow> collector \<Rightarrow> event" where
  "pushed ty d s = mkEvent ty d s (clock s (ticks s)) (clock s (Suc (ticks s)))"

definition push :: "string \<Rightarrow> payload \<Rightarrow> collector \<Rightarrow> collector" where
  "push ty d s = s\<lparr>ticks := Suc (Suc (ticks s)), events := events s @ [pushed ty d s]\<rparr>"

definition persistIf :: "string \<Rightarrow> event \<Rightarrow> collector \<Rightarrow> collector" where
  "persistIf ty ev s = (if isImportantEvent ty then persistEvent ev s else s)"

definition only_log :: "collector \<Rightarrow> collector \<Rightarrow> bool" where
  "only_log s s' =
     (sessionId s' = sessionId s \<and> startTime s' = startTime s \<and> isVRMode s' = isVRMode s
      \<and> userInteractions s' = userInteractions s
      \<and> performanceMetrics s' = performanceMetrics s \<and> spatialData s' = spatialData s
      \<and> platform s' = platform s \<and> vrCapable s' = vrCapable s
      \<and> vrSessionStart s' = vrSessionStart s
      \<and> sd_interactionMetrics s' = sd_interactionMetrics s
      \<and> clock s' = clock s \<and> setItem_ok s' = setItem_ok s)"

definition detects :: "collector \<Rightarrow> bool" where
  "detects s = (let r = slice_last 5 (userInteractions s)
                in length r \<ge> 3
                   \<and> fdiv (gap_sum (map ia_timestamp r)) (real (length r - 1)) < 500)"

definition rapid_payload :: "collector \<Rightarrow> payload" where
  "rapid_payload s = (let r = slice_last 5 (userInteractions s)
      in RapidInteraction ''high_frequency''
           (fdiv (gap_sum (map ia_timestamp r)) (real (length r - 1))) (length r))"

definition internal_types :: "string set" where
  "internal_types = {''rapid_interaction_detected'', ''performance_warning'',
     ''vr_experience_start'', ''vr_experience_end''}"

definition nested_ok :: "collector \<Rightarrow> collector \<Rightarrow> bool" where
  "nested_ok s s' = (only_log s s' \<and> (\<exists>es. events s' = events s @ es \<and> eventType ` set es \<subseteq> internal_types))"

text \<open>The samples that the calls \<open>cs\<close>, run from the state \<open>s\<close>, insert into the
  spatial buffer and into the performance buffer, in the order of insertion.\<close>

fun inserted_spatial :: "collector \<Rightarrow> call list \<Rightarrow> spatial list" where
  "inserted_spatial s [] = []"
| "inserted_spatial s (c # cs) =
     (case c of
        LogSpatialData position rotation scale objectType \<Rightarrow>
          [mkSpatial position rotation scale objectType (clock s (ticks s))]
      | _ \<Rightarrow> []) @ inserted_spatial (exec s c) cs"

fun inserted_perf :: "collector \<Rightarrow> call list \<Rightarrow> perf list" where
  "inserted_perf s [] = []"
| "inserted_perf s (c # cs) =
     (case c of
        LogPerformance fps renderTime memoryUsage \<Rightarrow>
          [mkPerf fps renderTime memoryUsage (clock s (ticks s)) (isVRMode s)]
      | _ \<Rightarrow> []) @ inserted_perf (exec s c) cs"

text \<open>The vector \<open>(0, 0, 0)\<close>, for the examples.\<close>

definition origin :: vec3 where
  "origin = \<lparr>vx = 0, vy = 0, vz = 0\<rparr>"

text \<open>The number of events of a type in the event log.\<close>

definition count_events :: "string \<Rightarrow> collector \<Rightarrow> nat" where
  "count_events ty s = length (filter (\<lambda>e. eventType e = ty) (events s))"

text \<open>A \<open>data\<close> object without keys, and a click on an object, for the examples.\<close>

definition no_data :: idata where
  "no_data = \<lparr>id_type = None, id_target = None, id_position = None, id_duration = None,
               id_force = None, id_vrMode = None, id_keys = no_overrides, id_extra = []\<rparr>"

definition click :: call where
  "click = LogInteraction ''click'' ''cube'' None no_data"

text \<open>The engagement score as the specification words it, from the duration in
  seconds, the number of interactions, whether a VR session ever started and the
  average fps: the four components added from left to right in double arithmetic, and
  the sum rounded to the nearest integer.\<close>

definition engagement_formula :: "real \<Rightarrow> nat \<Rightarrow> bool \<Rightarrow> real \<Rightarrow> int" where
  "engagement_formula durationSeconds totalInteractions vrUsed avgFps =
     js_round
       (fadd (fadd (fadd (fmul (min (fdiv durationSeconds 300) 1) 30)
                      (fmul (min (fdiv (real totalInteractions) 50) 1) 30))
                (if vrUsed then 25 else 0))
          (if avgFps > 45 then 15 else if avgFps > 30 then 10 else 5))"

text \<open>The same sum in exact arithmetic, before it is rounded to an integer.\<close>

definition weighted_sum :: "real \<Rightarrow> nat \<Rightarrow> bool \<Rightarrow> real \<Rightarrow> real" where
  "weighted_sum durationSeconds totalInteractions vrUsed avgFps =
     min (durationSeconds / 300) 1 * 30 + min (real totalInteractions / 50) 1 * 30
       + (if vrUsed then 25 else 0)
       + (if avgFps > 45 then 15 else if avgFps > 30 then 10 else 5)"

text \<open>The unit roundoff of double arithmetic: rounding changes a number by at most
  this fraction of it.\<close>

definition eps :: real where
  "eps = 1 / 2 ^ 53"

text \<open>The duration of the session in seconds, as the next reading of the clock gives it.\<close>

definition durationSeconds :: "collector \<Rightarrow> real" where
  "durationSeconds s = fdiv (fsub (clock s (ticks s)) (startTime s)) 1000"

text \<open>The flag \<open>vrModeUsed\<close> of the summary: some logged event has the type
  \<open>vr_session_start\<close>.\<close>

definition vrModeUsed :: "collector \<Rightarrow> bool" where
  "vrModeUsed s = list_ex (\<lambda>e. eventType e = ''vr_session_start'') (events s)"

text \<open>Three sessions for the examples: a new one whose clock stands still; one that
  has run for 400 seconds with 50 clicks, a \<open>vr_session_start\<close> event and one
  performance sample of 60 fps; and a new one after two clicks, whose clock reads 0
  during the clicks and 213 seconds afterwards.\<close>

definition idle_session :: collector where
  "idle_session = newCollector ''vr_1'' ''Windows'' (\<lambda>n. 0) Absent (\<lambda>es. True)"

definition busy_session :: collector where
  "busy_session =
     (newCollector ''vr_1'' ''Windows'' (\<lambda>n. 200000 * real n) Absent (\<lambda>es. True))
       \<lparr>events := [\<lparr>ev_sessionId = ''vr_1'', eventType = ''vr_session_start'',
                     ev_timestamp = 0, relativeTime = 0, ev_isVRMode = False,
                     ev_data = Custom (no_overrides\<lparr>ov_timestamp := Some 0\<rparr>)
                                 [(''sessionType'', ''immersive-vr'')]\<rparr>],
        userInteractions := replicate 50
          \<lparr>ia_type = ''click'', ia_target = ''cube'', ia_position = None,
           ia_duration = None, ia_force = None, ia_timestamp = 0, ia_vrMode = False,
           ia_keys = no_overrides, ia_extra = []\<rparr>,
        performanceMetrics := [mkPerf 60 16 None 0 False]\<rparr>"

definition session_213 :: collector where
  "session_213 =
     run (newCollector ''vr_1'' ''Windows'' (\<lambda>n. if n < 8 then 0 else 213000) Absent
            (\<lambda>es. True))
       [click, click]"

text \<open>The mean of a list of doubles as the source computes it, the sum taken from
  the first element on, and the fps of the most recent 60 performance samples and of
  the 60 before them.\<close>

definition fsum :: "real list \<Rightarrow> real" where
  "fsum xs = foldl fadd 0 xs"

definition mean :: "real list \<Rightarrow> real" where
  "mean xs = fdiv (fsum xs) (real (length xs))"

definition recent_fps :: "collector \<Rightarrow> real list" where
  "recent_fps s = map pf_fps (drop (length (performanceMetrics s) - 60) (performanceMetrics s))"

definition older_fps :: "collector \<Rightarrow> real list" where
  "older_fps s =
     map pf_fps (take 60 (drop (length (performanceMetrics s) - 120) (performanceMetrics s)))"

text \<open>The relative change from the older mean to the recent mean, in percent, as
  doubles give it where the older mean is not zero: the difference divided by the
  older mean, times 100.\<close>

definition percent_change :: "collector \<Rightarrow> real" where
  "percent_change s =
     fmul (fdiv (fsub (mean (recent_fps s)) (mean (older_fps s))) (mean (older_fps s))) 100"

text \<open>The mean of a list and the relative change of the two means in exact
  arithmetic.\<close>

definition exact_mean :: "real list \<Rightarrow> real" where
  "exact_mean xs = sum_list xs / real (length xs)"

definition relative_change :: "collector \<Rightarrow> real" where
  "relative_change s =
     (exact_mean (recent_fps s) - exact_mean (older_fps s)) / exact_mean (older_fps s)"

text \<open>A session whose performance buffer holds 60 samples at \<open>a\<close> fps followed by 60
  at \<open>b\<close> fps.\<close>

definition two_levels :: "real \<Rightarrow> real \<Rightarrow> collector" where
  "two_levels a b = idle_session
     \<lparr>performanceMetrics :=
        replicate 60 \<lparr>pf_fps = a, pf_renderTime = 16, pf_memoryUsage = None,
                       pf_timestamp = 0, pf_isVRMode = False\<rparr>
        @ replicate 60 \<lparr>pf_fps = b, pf_renderTime = 16, pf_memoryUsage = None,
                         pf_timestamp = 0, pf_isVRMode = False\<rparr>\<rparr>"

text \<open>A new session after 117 samples at 1 fps and 3 samples at 2 fps, and the fps
  that a sequence of calls stores in the performance buffer.\<close>

definition five_percent_session :: collector where
  "five_percent_session =
     run (newCollector ''vr_1'' ''Windows'' (\<lambda>n. real n) Absent (\<lambda>es. True))
       (replicate 117 (LogPerformance 1 16 None) @ replicate 3 (LogPerformance 2 16 None))"

fun fps_logged :: "call list \<Rightarrow> real list" where
  "fps_logged [] = []"
| "fps_logged (c # cs) =
     (case c of LogPerformance fps renderTime memoryUsage \<Rightarrow> [round_to 10 fps] | _ \<Rightarrow> [])
     @ fps_logged cs"









text \<open>A new session whose clock reads 0 for its first eight readings (two of the
  constructor, six of the first \<open>setVRMode(true)\<close>) and the number of the reading
  afterwards.\<close>

definition early_session :: collector where
  "early_session =
     newCollector ''vr_1'' ''Windows'' (\<lambda>n. if n \<le> 7 then 0 else real n) Absent (\<lambda>es. True)"

text \<open>A new session whose clock reads the number of the reading plus one.\<close>

definition late_session :: collector where
  "late_session = newCollector ''vr_1'' ''Windows'' (\<lambda>n. real n + 1) Absent (\<lambda>es. True)"

text \<open>The collector without its sink: the state with the storage, the browser's
  answer to writes and the recorded warnings blanked.\<close>

definition forget_sink :: "collector \<Rightarrow> collector" where
  "forget_sink s = s\<lparr>storage := Absent, setItem_ok := (\<lambda>es. True), warnings := []\<rparr>"

text \<open>A new session whose storage holds a value that does not parse.\<close>

definition broken_session :: collector where
  "broken_session = newCollector ''vr_1'' ''Windows'' (\<lambda>n. real n) Corrupt (\<lambda>es. True)"

text \<open>A call of \<open>logEvent\<close> with the event type \<open>vr_session_start\<close>; a call of one
  of the other methods; a call that logs an event which ends with the type
  \<open>vr_session_start\<close>, by its event type or by an \<open>eventType\<close> key of its data; and
  a click whose data carries that key.\<close>

fun logs_vr_session_start :: "call \<Rightarrow> bool" where
  "logs_vr_session_start (LogEvent ty data) = (ty = ''vr_session_start'')"
| "logs_vr_session_start _ = False"

fun other_method :: "call \<Rightarrow> bool" where
  "other_method (LogEvent ty data) = False"
| "other_method _ = True"

fun marks_vr_session_start :: "call \<Rightarrow> bool" where
  "marks_vr_session_start (LogEvent ty data) = (effectiveType ty data = ''vr_session_start'')"
| "marks_vr_session_start (LogInteraction ty target position data) =
     (ov_eventType (id_keys data) = Some ''vr_session_start'')"
| "marks_vr_session_start _ = False"

definition marked_click :: call where
  "marked_click = LogInteraction ''click'' ''cube'' None
     (no_data\<lparr>id_keys := no_overrides\<lparr>ov_eventType := Some ''vr_session_start''\<rparr>\<rparr>)"

text \<open>A call of a method other than \<open>logEvent\<close> whose data, if it has any, does not
  carry the key \<open>eventType\<close> with the value \<open>vr_session_start\<close>; and a call of
  \<open>logEvent\<close> with the event type \<open>vr_session_start\<close> whose data carries another
  \<open>eventType\<close>.\<close>

fun unmarked_method :: "call \<Rightarrow> bool" where
  "unmarked_method (LogEvent ty data) = False"
| "unmarked_method (LogInteraction ty target position data) =
     (ov_eventType (id_keys data) \<noteq> Some ''vr_session_start'')"
| "unmarked_method _ = True"

definition renamed_start :: call where
  "renamed_start = LogEvent ''vr_session_start''
     (Custom (no_overrides\<lparr>ov_eventType := Some ''custom''\<rparr>) [])"

text \<open>A call of \<open>logInteraction\<close> whose data has no \<open>eventType\<close> key.\<close>

fun is_interaction :: "call \<Rightarrow> bool" where
  "is_interaction (LogInteraction ty target position data) =
     (ov_eventType (id_keys data) = None)"
| "is_interaction _ = False"

section \<open>Properties\<close>

subsection \<open>Rounding to a double\<close>

lemma rhe_int [simp]: "round_half_even (of_int n) = n"
  by (simp add: round_half_even_def)

lemma rhe_range: "\<lfloor>y\<rfloor> \<le> round_half_even y" "round_half_even y \<le> \<lfloor>y\<rfloor> + 1"
  by (simp_all add: round_half_even_def Let_def)

lemma rhe_mono: "a \<le> b \<Longrightarrow> round_half_even a \<le> round_half_even b"
proof -
  assume ab: "a \<le> b"
  have fl: "\<lfloor>a\<rfloor> \<le> \<lfloor>b\<rfloor>" using ab by (rule floor_mono)
  show ?thesis
  proof (cases "\<lfloor>a\<rfloor> = \<lfloor>b\<rfloor>")
    case True
    then show ?thesis
      using ab by (auto simp: round_half_even_def Let_def)
  next
    case False
    then have "\<lfloor>a\<rfloor> + 1 \<le> \<lfloor>b\<rfloor>" using fl by simp
    then show ?thesis
      using rhe_range(2) [of a] rhe_range(1) [of b] by linarith
  qed
qed

lemma rhe_minus: "round_half_even (- y) = - round_half_even y"
proof (cases "y = of_int \<lfloor>y\<rfloor>")
  case True
  then obtain n where "y = of_int n" by metis
  then show ?thesis
    by (simp add: round_half_even_def flip: of_int_minus)
next
  case False
  then have fm: "\<lfloor>- y\<rfloor> = - \<lfloor>y\<rfloor> - 1"
    by (metis Ints_of_int ceiling_altdef ceiling_def of_int_floor add.commute
        minus_add_distrib minus_minus uminus_add_conv_diff Ints_cases)
  show ?thesis
    unfolding round_half_even_def Let_def fm
    by (auto simp: algebra_simps)
qed


lemma binade_bounds:
  assumes "x \<noteq> 0"
  shows "2 powr of_int (binade x) \<le> \<bar>x\<bar>" "\<bar>x\<bar> < 2 powr of_int (binade x + 1)"
proof -
  have "0 < \<bar>x\<bar>" using assms by simp
  then have "2 powr of_int (binade x) \<le> \<bar>x\<bar> \<and> \<bar>x\<bar> < 2 powr (of_int (binade x) + 1)"
    using floor_log_eq_powr_iff [of "\<bar>x\<bar>" 2 "binade x"] by (simp add: binade_def)
  then show "2 powr of_int (binade x) \<le> \<bar>x\<bar>" "\<bar>x\<bar> < 2 powr of_int (binade x + 1)"
    by simp_all
qed

lemma binade_eqI:
  "2 powr of_int k \<le> \<bar>x\<bar> \<Longrightarrow> \<bar>x\<bar> < 2 powr of_int (k + 1) \<Longrightarrow> binade x = k"
proof -
  assume a: "2 powr of_int k \<le> \<bar>x\<bar>" and b: "\<bar>x\<bar> < 2 powr of_int (k + 1)"
  have "0 < (2::real) powr of_int k" by simp
  with a have "0 < \<bar>x\<bar>" by linarith
  then show ?thesis
    using floor_log_eq_powr_iff [of "\<bar>x\<bar>" 2 k] a b by (simp add: binade_def)
qed

lemma binade_mono: "0 < x \<Longrightarrow> x \<le> y \<Longrightarrow> binade x \<le> binade y"
  by (simp add: binade_def floor_mono)

lemma ulp_pos [simp]: "0 < ulp x"
  by (simp add: ulp_def)

lemma ulp_nonneg [simp]: "0 \<le> ulp x"
  by (simp add: ulp_def)

lemma ulp_scale: "ulp x * 2 ^ 52 = 2 powr of_int (binade x)"
proof -
  have "(2::real) ^ 52 = 2 powr of_int 52"
    by (simp add: powr_realpow [symmetric])
  then have "ulp x * 2 ^ 52 = 2 powr (of_int (binade x - 52) + of_int 52)"
    unfolding ulp_def by (simp only: powr_add)
  then show ?thesis by simp
qed

lemma rd_pos_range:
  assumes "0 < x"
  shows "2 powr of_int (binade x) \<le> rd x" "rd x \<le> 2 powr of_int (binade x + 1)"
proof -
  let ?u = "ulp x"
  let ?n = "round_half_even (x / ?u)"
  have x0: "x \<noteq> 0" using assms by simp
  have lo: "2 powr of_int (binade x) \<le> x" and hi: "x < 2 powr of_int (binade x + 1)"
    using binade_bounds [OF x0] assms by simp_all
  have two: "(2::real) powr of_int (binade x + 1) = 2 powr of_int (binade x) * 2"
    by (simp add: powr_add)
  have rdx: "rd x = of_int ?n * ?u"
    using x0 by (simp add: rd_def)
  have "?u * 2 ^ 52 \<le> x"
    using lo by (simp only: ulp_scale)
  then have "of_int (2 ^ 52) \<le> x / ?u"
    by (simp add: pos_le_divide_eq mult.commute)
  then have "round_half_even (of_int (2 ^ 52)) \<le> ?n"
    by (rule rhe_mono)
  then have "(2::int) ^ 52 \<le> ?n"
    by (simp only: rhe_int)
  then have "of_int ((2::int) ^ 52) \<le> (of_int ?n :: real)"
    by (simp only: of_int_le_iff)
  then have "(2::real) ^ 52 \<le> of_int ?n"
    by simp
  then have "2 ^ 52 * ?u \<le> of_int ?n * ?u"
    by (rule mult_right_mono) simp
  moreover have "2 ^ 52 * ?u = 2 powr of_int (binade x)"
    using ulp_scale [of x] by (simp only: mult.commute)
  ultimately show "2 powr of_int (binade x) \<le> rd x"
    by (simp only: rdx)
  have "x \<le> ?u * 2 ^ 52 * 2"
    using hi unfolding two by (simp only: ulp_scale less_imp_le)
  then have "x / ?u \<le> of_int (2 ^ 53)"
    by (simp add: pos_divide_le_eq mult.commute)
  then have "?n \<le> round_half_even (of_int (2 ^ 53))"
    by (rule rhe_mono)
  then have "?n \<le> (2::int) ^ 53"
    by (simp only: rhe_int)
  then have "(of_int ?n :: real) \<le> of_int ((2::int) ^ 53)"
    by (simp only: of_int_le_iff)
  then have "of_int ?n \<le> (2::real) ^ 53"
    by simp
  then have "of_int ?n * ?u \<le> 2 ^ 53 * ?u"
    by (rule mult_right_mono) simp
  moreover have "2 ^ 53 * ?u = 2 powr of_int (binade x + 1)"
    unfolding two using ulp_scale [of x] by simp
  ultimately show "rd x \<le> 2 powr of_int (binade x + 1)"
    by (simp only: rdx)
qed


lemma binade_minus [simp]: "binade (- x) = binade x"
  by (simp add: binade_def)

lemma ulp_minus [simp]: "ulp (- x) = ulp x"
  by (simp add: ulp_def)

lemma rd_zero [simp]: "rd 0 = 0"
  by (simp add: rd_def)

lemma rd_minus: "rd (- x) = - rd x"
  by (simp add: rd_def rhe_minus)

lemma rd_pos: "0 < x \<Longrightarrow> 0 < rd x"
proof -
  assume "0 < x"
  then have "2 powr of_int (binade x) \<le> rd x" by (rule rd_pos_range)
  moreover have "0 < (2::real) powr of_int (binade x)" by simp
  ultimately show ?thesis by linarith
qed

lemma rd_mono_pos:
  assumes "0 < x" "x \<le> y"
  shows "rd x \<le> rd y"
proof (cases "binade x = binade y")
  case True
  then have u: "ulp y = ulp x" by (simp add: ulp_def)
  have "x / ulp x \<le> y / ulp x"
    using assms(2) by (simp add: divide_right_mono)
  then have "round_half_even (x / ulp x) \<le> round_half_even (y / ulp x)"
    by (rule rhe_mono)
  then have "(of_int (round_half_even (x / ulp x)) :: real) \<le> of_int (round_half_even (y / ulp x))"
    by (simp only: of_int_le_iff)
  then have "of_int (round_half_even (x / ulp x)) * ulp x
      \<le> of_int (round_half_even (y / ulp x)) * ulp x"
    by (rule mult_right_mono) simp
  then show ?thesis
    using assms by (simp add: rd_def u)
next
  case False
  have y: "0 < y" using assms by linarith
  have "binade x \<le> binade y" using assms by (rule binade_mono)
  with False have "binade x + 1 \<le> binade y" by simp
  then have "(2::real) powr of_int (binade x + 1) \<le> 2 powr of_int (binade y)"
    by simp
  moreover have "rd x \<le> 2 powr of_int (binade x + 1)"
    using assms(1) by (rule rd_pos_range)
  moreover have "2 powr of_int (binade y) \<le> rd y"
    using y by (rule rd_pos_range)
  ultimately show ?thesis by linarith
qed

lemma rd_mono: "x \<le> y \<Longrightarrow> rd x \<le> rd y"
proof -
  assume xy: "x \<le> y"
  consider "0 < x" | "x \<le> 0" "0 \<le> y" | "y < 0" by linarith
  then show ?thesis
  proof cases
    case 1
    then show ?thesis using xy by (rule rd_mono_pos)
  next
    case 2
    have "rd x \<le> 0"
    proof (cases "x = 0")
      case True then show ?thesis by simp
    next
      case False
      with 2 have "0 < - x" by simp
      then have "0 < rd (- x)" by (rule rd_pos)
      then show ?thesis by (simp add: rd_minus)
    qed
    moreover have "0 \<le> rd y"
    proof (cases "y = 0")
      case True then show ?thesis by simp
    next
      case False
      with 2 have "0 < y" by simp
      then have "0 < rd y" by (rule rd_pos)
      then show ?thesis by simp
    qed
    ultimately show ?thesis by linarith
  next
    case 3
    then have "0 < - y" "- y \<le> - x" using xy by simp_all
    then have "rd (- y) \<le> rd (- x)" by (rule rd_mono_pos)
    then show ?thesis by (simp add: rd_minus)
  qed
qed

lemma rd_exact:
  assumes "\<bar>m\<bar> < 2 ^ 53"
  shows "rd (of_int m * 2 powr of_int j) = of_int m * 2 powr of_int j"
proof (cases "m = 0")
  case True
  then show ?thesis by simp
next
  case False
  let ?x = "of_int m * 2 powr of_int j :: real"
  let ?k = "binade (of_int m)"
  have m0: "(of_int m :: real) \<noteq> 0" using False by simp
  have x0: "?x \<noteq> 0" using False by simp
  have lo: "2 powr of_int ?k \<le> \<bar>of_int m :: real\<bar>"
    and hi: "\<bar>of_int m :: real\<bar> < 2 powr of_int (?k + 1)"
    using binade_bounds [OF m0] by simp_all
  have "\<bar>of_int m :: real\<bar> < 2 ^ 53"
    using assms by (metis of_int_abs of_int_less_iff of_int_numeral of_int_power)
  also have "(2::real) ^ 53 = 2 powr of_int 53"
    by (simp add: powr_realpow [symmetric])
  finally have "(2::real) powr of_int ?k < 2 powr of_int 53"
    using lo by linarith
  moreover have cancel: "(2::real) powr a < 2 powr b \<longleftrightarrow> a < b" for a b
    by (rule powr_less_cancel_iff) simp
  ultimately have "(of_int ?k :: real) < of_int 53"
    by (simp only: cancel)
  then have k: "?k \<le> 52" by simp
  have bx: "binade ?x = ?k + j"
  proof (rule binade_eqI)
    have "\<bar>?x\<bar> = \<bar>of_int m\<bar> * 2 powr of_int j"
      by (simp add: abs_mult)
    moreover have "2 powr of_int (?k + j) = 2 powr of_int ?k * (2::real) powr of_int j"
      by (simp add: powr_add)
    moreover have "2 powr of_int (?k + j + 1) = 2 powr of_int (?k + 1) * (2::real) powr of_int j"
      by (simp add: powr_add)
    ultimately show "2 powr of_int (?k + j) \<le> \<bar>?x\<bar>" "\<bar>?x\<bar> < 2 powr of_int (?k + j + 1)"
      using lo hi by (simp_all add: mult_right_mono mult_strict_right_mono)
  qed
  have u: "ulp ?x = 2 powr of_int j / 2 ^ nat (52 - ?k)"
  proof -
    have "ulp ?x = 2 powr (of_int j - of_int (52 - ?k))"
      by (simp add: ulp_def bx algebra_simps)
    also have "\<dots> = 2 powr of_int j / 2 powr of_int (52 - ?k)"
      by (simp only: powr_diff)
    also have "(2::real) powr of_int (52 - ?k) = 2 ^ nat (52 - ?k)"
      using k powr_real_of_int [of "2::real" "52 - ?k"] by simp
    finally show ?thesis .
  qed
  have "?x / ulp ?x = of_int (m * 2 ^ nat (52 - ?k))"
    by (simp add: u)
  then have "round_half_even (?x / ulp ?x) = m * 2 ^ nat (52 - ?k)"
    by (simp only: rhe_int)
  then have "rd ?x = of_int (m * 2 ^ nat (52 - ?k)) * ulp ?x"
    using x0 by (simp only: rd_def if_False)
  also have "\<dots> = ?x"
    by (simp add: u)
  finally show ?thesis .
qed

lemma rd_of_int: "\<bar>n\<bar> < 2 ^ 53 \<Longrightarrow> rd (of_int n) = of_int n"
  using rd_exact [of n 0] by simp

lemma rd_numeral [simp]: "numeral w < (2::int) ^ 53 \<Longrightarrow> rd (numeral w) = numeral w"
  using rd_of_int [of "numeral w"] by simp

lemma rd_neg_numeral [simp]:
  "numeral w < (2::int) ^ 53 \<Longrightarrow> rd (- numeral w) = - numeral w"
  using rd_of_int [of "- numeral w"] by simp

lemma rd_one [simp]: "rd 1 = 1"
  using rd_of_int [of 1] by simp

lemma rd_of_nat: "n < 2 ^ 53 \<Longrightarrow> rd (real n) = real n"
  using rd_of_int [of "int n"] by simp

lemma rd_nonneg: "0 \<le> x \<Longrightarrow> 0 \<le> rd x"
  using rd_mono [of 0 x] by simp

lemma rd_le_numeral: "x \<le> numeral w \<Longrightarrow> numeral w < (2::int) ^ 53 \<Longrightarrow> rd x \<le> numeral w"
  using rd_mono [of x "numeral w"] by simp

lemma rd_ge_numeral: "numeral w \<le> x \<Longrightarrow> numeral w < (2::int) ^ 53 \<Longrightarrow> numeral w \<le> rd x"
  using rd_mono [of "numeral w" x] by simp

lemma eps_pos: "0 < eps" "0 \<le> eps"
  by (simp_all add: eps_def)

lemma dist_trans:
  fixes a b c :: real
  shows "\<bar>a - b\<bar> \<le> p \<Longrightarrow> \<bar>b - c\<bar> \<le> q \<Longrightarrow> \<bar>a - c\<bar> \<le> p + q"
  by linarith

lemma rhe_error: "\<bar>of_int (round_half_even y) - y\<bar> \<le> 1 / 2"
proof -
  have "of_int \<lfloor>y\<rfloor> \<le> y" "y < of_int \<lfloor>y\<rfloor> + 1"
    by linarith+
  then show ?thesis
    by (simp add: round_half_even_def Let_def abs_le_iff)
qed

lemma rd_error_ulp: "\<bar>rd x - x\<bar> \<le> ulp x / 2"
proof (cases "x = 0")
  case True
  then show ?thesis by simp
next
  case False
  have u: "ulp x \<noteq> 0"
    by (simp add: ulp_def)
  have "rd x - x = (of_int (round_half_even (x / ulp x)) - x / ulp x) * ulp x"
    using False u by (simp add: rd_def algebra_simps)
  then have "\<bar>rd x - x\<bar> = \<bar>of_int (round_half_even (x / ulp x)) - x / ulp x\<bar> * ulp x"
    by (simp add: abs_mult)
  also have "\<dots> \<le> (1 / 2) * ulp x"
    by (rule mult_right_mono) (rule rhe_error, simp)
  finally show ?thesis by simp
qed

lemma rd_error: "\<bar>rd x - x\<bar> \<le> \<bar>x\<bar> * eps"
proof (cases "x = 0")
  case True
  then show ?thesis by simp
next
  case False
  have "ulp x * 2 ^ 52 \<le> \<bar>x\<bar>"
    using binade_bounds(1) [OF False] ulp_scale [of x] by linarith
  then have "ulp x / 2 \<le> \<bar>x\<bar> * eps"
    by (simp add: eps_def field_simps)
  then show ?thesis
    using rd_error_ulp [of x] by linarith
qed

lemma rd_in_binade:
  assumes "2 powr of_int k \<le> \<bar>x\<bar>" "\<bar>x\<bar> < 2 powr of_int (k + 1)"
  shows "rd x = of_int (round_half_even (x / 2 powr of_int (k - 52))) * 2 powr of_int (k - 52)"
proof -
  have "binade x = k"
    using assms by (rule binade_eqI)
  moreover have "x \<noteq> 0"
    using assms(1) by (smt (verit) powr_gt_zero)
  ultimately show ?thesis
    by (simp add: rd_def ulp_def)
qed

lemma rd_error_bounded: "\<bar>x\<bar> \<le> b \<Longrightarrow> \<bar>rd x - x\<bar> \<le> b * eps"
proof -
  assume "\<bar>x\<bar> \<le> b"
  then have "\<bar>x\<bar> * eps \<le> b * eps"
    using eps_pos(2) by (rule mult_right_mono)
  then show ?thesis
    using rd_error [of x] by linarith
qed

lemma fadd_lower: "lo \<le> a + b \<Longrightarrow> rd lo = lo \<Longrightarrow> lo \<le> fadd a b"
  using rd_mono [of lo "a + b"] by (simp add: fadd_def)

lemma fadd_upper:
  "a + b \<le> numeral w \<Longrightarrow> numeral w < (2::int) ^ 53 \<Longrightarrow> fadd a b \<le> numeral w"
  using rd_mono [of "a + b" "numeral w"] by (simp add: fadd_def)

lemma fadd_error: "0 \<le> a + b \<Longrightarrow> a + b \<le> c \<Longrightarrow> \<bar>fadd a b - (a + b)\<bar> \<le> c * eps"
  unfolding fadd_def by (rule rd_error_bounded) simp

lemma js_round_error: "\<bar>of_int (js_round x) - x\<bar> \<le> 1 / 2"
  unfolding js_round_def by linarith

lemma rd_sign: "(0 < rd x) = (0 < x)" "(rd x < 0) = (x < 0)"
proof -
  show "(0 < rd x) = (0 < x)"
    using rd_pos [of x] rd_mono [of x 0] by fastforce
  show "(rd x < 0) = (x < 0)"
    using rd_pos [of "- x"] rd_mono [of 0 x] by (fastforce simp: rd_minus)
qed

subsection \<open>What one call of \<open>logEvent\<close> does\<close>

declare logEvent.simps [simp del] processEventRealTime.simps [simp del]
  processInteractionEvent.simps [simp del] processPerformanceEvent.simps [simp del]
  processVRModeChange.simps [simp del]

lemma dispatches_lits [simp]:
  "dispatches ''rapid_interaction_detected'' = 0"
  "dispatches ''performance_warning'' = 0"
  "dispatches ''vr_experience_start'' = 0"
  "dispatches ''vr_experience_end'' = 0"
  "dispatches ''spatial_tracking'' = 0"
  "dispatches ''user_interaction'' = 1"
  "dispatches ''performance_metrics'' = 1"
  "dispatches ''vr_mode_change'' = 1"
  by (simp_all add: dispatches_def)

lemma replaced_by_simps [simp]:
  "replaced_by None own = own" "replaced_by (Some v) own = v"
  by (simp_all add: replaced_by_def)

lemma effectiveType_own [simp]:
  "effectiveType ty NoData = ty"
  "effectiveType ty (SpatialTracking a1 a2) = ty"
  "effectiveType ty (PerformanceMetrics b1 b2 b3 b4) = ty"
  "effectiveType ty (VRModeChange c1 c2 c3) = ty"
  "effectiveType ty (RapidInteraction d1 d2 d3) = ty"
  "effectiveType ty (LowFps e1 e2) = ty"
  "effectiveType ty (HighRenderTime f1 f2) = ty"
  "effectiveType ty (VRExperienceStart g1 g2) = ty"
  "effectiveType ty (VRExperienceEnd h1 h2) = ty"
  by (simp_all add: effectiveType_def no_overrides_def replaced_by_def)

lemma logEvent_unfold:
  "logEvent ty d s = (pushed ty d s, persistIf ty (pushed ty d s) (processEventRealTime (pushed ty d s) (push ty d s)))"
  by (simp add: logEvent.simps now_def pushed_def push_def persistIf_def Let_def mkEvent_def)

lemma eventType_pushed [simp]: "eventType (pushed ty d s) = effectiveType ty d"
  by (simp add: pushed_def mkEvent_def Let_def)

lemma logEvent_leaf:
  "dispatches (effectiveType ty d) = 0 \<Longrightarrow>
   logEvent ty d s = (pushed ty d s, persistIf ty (pushed ty d s) (push ty d s))"
  by (simp add: logEvent_unfold processEventRealTime.simps dispatches_def split: if_splits)

lemma only_log_refl [simp]: "only_log s s"
  by (simp add: only_log_def)

lemma only_log_trans: "only_log s s1 \<Longrightarrow> only_log s1 s2 \<Longrightarrow> only_log s s2"
  by (simp add: only_log_def)

lemma only_log_push: "only_log s (push ty d s)"
  by (simp add: only_log_def push_def)

lemma only_log_persistEvent: "only_log s (persistEvent ev s)"
  by (simp add: only_log_def persistEvent_def split: sum.splits)

lemma only_log_persistIf: "only_log s (persistIf ty ev s)"
  by (simp add: persistIf_def only_log_persistEvent)

lemma only_log_leaf:
  "dispatches (effectiveType ty d) = 0 \<Longrightarrow> only_log s (snd (logEvent ty d s))"
  by (simp add: logEvent_leaf) (blast intro: only_log_trans only_log_push only_log_persistIf)

lemma important_lits [simp]:
  "\<not> isImportantEvent ''rapid_interaction_detected''"
  "isImportantEvent ''performance_warning''"
  "\<not> isImportantEvent ''vr_experience_start''"
  "\<not> isImportantEvent ''vr_experience_end''"
  "\<not> isImportantEvent ''spatial_tracking''"
  "\<not> isImportantEvent ''user_interaction''"
  "\<not> isImportantEvent ''performance_metrics''"
  "isImportantEvent ''vr_mode_change''"
  by (simp_all add: isImportantEvent_def)

lemma events_push [simp]: "events (push ty d s) = events s @ [pushed ty d s]"
  by (simp add: push_def)

lemma events_persistEvent [simp]: "events (persistEvent ev s) = events s"
  by (simp add: persistEvent_def split: sum.splits)

lemma events_persistIf [simp]: "events (persistIf ty ev s) = events s"
  by (simp add: persistIf_def)

lemma events_leaf:
  "dispatches (effectiveType ty d) = 0 \<Longrightarrow>
   events (snd (logEvent ty d s)) = events s @ [pushed ty d s]"
  by (simp add: logEvent_leaf)

lemma processInteractionEvent_eq:
  "processInteractionEvent ev s =
     (if detects s then push ''rapid_interaction_detected'' (rapid_payload s) s else s)"
  by (simp add: processInteractionEvent.simps detects_def rapid_payload_def Let_def logEvent_leaf persistIf_def)

lemma nested_ok_refl [simp]: "nested_ok s s"
  by (simp add: nested_ok_def)

lemma nested_ok_trans: "nested_ok s s1 \<Longrightarrow> nested_ok s1 s2 \<Longrightarrow> nested_ok s s2"
proof -
  assume a: "nested_ok s s1" and b: "nested_ok s1 s2"
  from a obtain es where es: "events s1 = events s @ es" "eventType ` set es \<subseteq> internal_types"
    by (auto simp: nested_ok_def)
  from b obtain fs where fs: "events s2 = events s1 @ fs" "eventType ` set fs \<subseteq> internal_types"
    by (auto simp: nested_ok_def)
  have "events s2 = events s @ (es @ fs)" "eventType ` set (es @ fs) \<subseteq> internal_types"
    using es fs by auto
  moreover have "only_log s s2"
    using a b by (auto simp: nested_ok_def intro: only_log_trans)
  ultimately show ?thesis
    unfolding nested_ok_def by blast
qed

lemma nested_ok_leaf:
  "ty \<in> internal_types \<Longrightarrow> effectiveType ty d = ty \<Longrightarrow> nested_ok s (snd (logEvent ty d s))"
  unfolding nested_ok_def
  by (auto simp: internal_types_def only_log_leaf events_leaf)

lemma nested_ok_now: "nested_ok s (snd (now s))"
  by (simp add: nested_ok_def only_log_def now_def)

lemma nested_ok_processInteractionEvent: "nested_ok s (processInteractionEvent ev s)"
  by (simp add: processInteractionEvent.simps Let_def nested_ok_leaf internal_types_def)

lemma nested_ok_warning:
  "effectiveType ''performance_warning'' d = ''performance_warning'' \<Longrightarrow>
   nested_ok s (if c then snd (logEvent ''performance_warning'' d s) else s)"
  by (simp add: nested_ok_leaf internal_types_def)

lemma nested_ok_processPerformanceEvent: "nested_ok s (processPerformanceEvent ev s)"
proof (cases "payload_current (ev_data ev)")
  case None
  then show ?thesis
    by (simp add: processPerformanceEvent.simps)
next
  case (Some cur)
  let ?s1 = "if pf_fps cur < 30 then snd (logEvent ''performance_warning''
      (LowFps (pf_fps cur) (if pf_fps cur < 15 then ''critical'' else ''warning'')) s) else s"
  have "nested_ok s ?s1"
    by (rule nested_ok_warning) simp
  moreover have "nested_ok ?s1 (if pf_renderTime cur > rd 16.67 then snd (logEvent ''performance_warning''
      (HighRenderTime (pf_renderTime cur) (if pf_renderTime cur > rd 33.33 then ''critical'' else ''warning'')) ?s1) else ?s1)"
    by (rule nested_ok_warning) simp
  ultimately show ?thesis
    unfolding processPerformanceEvent.simps Let_def Some option.case
    by (rule nested_ok_trans)
qed

lemma nested_ok_processVRModeChange: "nested_ok s (processVRModeChange ev s)"
proof (cases "payload_newMode (ev_data ev)")
  case True
  then show ?thesis
    by (simp add: processVRModeChange.simps nested_ok_leaf internal_types_def)
next
  case False
  have "nested_ok (snd (now s))
      (snd (logEvent ''vr_experience_end'' (VRExperienceEnd a b) (snd (now s))))" for a b
    by (simp add: nested_ok_leaf internal_types_def)
  then have "nested_ok s
      (snd (logEvent ''vr_experience_end'' (VRExperienceEnd a b) (snd (now s))))" for a b
    by (rule nested_ok_trans [OF nested_ok_now])
  with False show ?thesis
    by (simp add: processVRModeChange.simps Let_def case_prod_beta)
qed

lemma nested_ok_processEventRealTime: "nested_ok s (processEventRealTime ev s)"
  by (simp add: processEventRealTime.simps nested_ok_processInteractionEvent
      nested_ok_processPerformanceEvent nested_ok_processVRModeChange)

lemma logEvent_shape:
  "\<exists>es. events (snd (logEvent ty d s)) = events s @ pushed ty d s # es
        \<and> eventType ` set es \<subseteq> internal_types"
proof -
  have "nested_ok (push ty d s) (processEventRealTime (pushed ty d s) (push ty d s))"
    by (rule nested_ok_processEventRealTime)
  then show ?thesis
    by (auto simp: logEvent_unfold nested_ok_def)
qed

lemma only_log_logEvent: "only_log s (snd (logEvent ty d s))"
proof -
  have "only_log (push ty d s) (processEventRealTime (pushed ty d s) (push ty d s))"
    using nested_ok_processEventRealTime by (simp add: nested_ok_def)
  then show ?thesis
    unfolding logEvent_unfold snd_conv
    by (blast intro: only_log_trans only_log_push only_log_persistIf)
qed

lemma fst_logEvent: "fst (logEvent ty d s) = pushed ty d s"
  by (simp add: logEvent_unfold)

subsection \<open>The two bounded buffers\<close>

lemma slice_last_all: "length xs \<le> n \<Longrightarrow> slice_last n xs = xs"
  by (simp add: slice_last_def)

lemma length_slice_last [simp]: "length (slice_last n xs) = min n (length xs)"
  by (simp add: slice_last_def)

lemma slice_last_append: "slice_last n (slice_last n xs @ ys) = slice_last n (xs @ ys)"
proof (cases "length xs \<le> n")
  case True
  then show ?thesis by (simp add: slice_last_all)
next
  case False
  then have "length xs + length ys - (length xs - n + n) + (length xs - n)
      = length xs + length ys - n"
    by arith
  with False show ?thesis
    by (simp add: slice_last_def)
qed

lemma only_log_spatialData: "only_log s s' \<Longrightarrow> spatialData s' = spatialData s"
  by (simp add: only_log_def)

lemma only_log_performanceMetrics: "only_log s s' \<Longrightarrow> performanceMetrics s' = performanceMetrics s"
  by (simp add: only_log_def)

lemma buffers_logEvent [simp]:
  "spatialData (snd (logEvent ty d s)) = spatialData s"
  "performanceMetrics (snd (logEvent ty d s)) = performanceMetrics s"
  "userInteractions (snd (logEvent ty d s)) = userInteractions s"
  using only_log_logEvent [of s ty d] by (simp_all add: only_log_def)

lemma spatialData_logSpatialData:
  "spatialData (logSpatialData p r sc ot s) =
     slice_last 1800 (spatialData s @ [mkSpatial p r sc ot (clock s (ticks s))])"
  by (simp add: logSpatialData_def now_def Let_def slice_last_all)

lemma performanceMetrics_logSpatialData [simp]:
  "performanceMetrics (logSpatialData p r sc ot s) = performanceMetrics s"
  by (simp add: logSpatialData_def now_def Let_def)

lemma performanceMetrics_logPerformance:
  "performanceMetrics (logPerformance f r m s) =
     slice_last 1800 (performanceMetrics s @ [mkPerf f r m (clock s (ticks s)) (isVRMode s)])"
  by (simp add: logPerformance_def now_def Let_def slice_last_all)

lemma spatialData_logPerformance [simp]:
  "spatialData (logPerformance f r m s) = spatialData s"
  by (simp add: logPerformance_def now_def Let_def)

lemma buffers_logInteraction [simp]:
  "spatialData (snd (logInteraction ty tg p d s)) = spatialData s"
  "performanceMetrics (snd (logInteraction ty tg p d s)) = performanceMetrics s"
  by (simp_all add: logInteraction_def now_def Let_def updateInteractionMetrics_def)

lemma buffers_setVRMode [simp]:
  "spatialData (setVRMode b s) = spatialData s"
  "performanceMetrics (setVRMode b s) = performanceMetrics s"
  by (simp_all add: setVRMode_def now_def Let_def)

lemma buffers_getSessionSummary [simp]:
  "spatialData (snd (getSessionSummary s)) = spatialData s"
  "performanceMetrics (snd (getSessionSummary s)) = performanceMetrics s"
  by (simp_all add: getSessionSummary_def now_def Let_def)

lemma buffers_calculateEngagementScore [simp]:
  "spatialData (snd (calculateEngagementScore s)) = spatialData s"
  "performanceMetrics (snd (calculateEngagementScore s)) = performanceMetrics s"
  by (simp_all add: calculateEngagementScore_def case_prod_beta Let_def)

lemma spatialData_exec:
  "spatialData (exec s c) = slice_last 1800 (spatialData s @ inserted_spatial s [c])
   \<or> (spatialData (exec s c) = spatialData s \<and> inserted_spatial s [c] = [])"
  by (cases c) (simp_all add: spatialData_logSpatialData)

lemma spatialData_run:
  "length (spatialData s) \<le> 1800 \<Longrightarrow>
   spatialData (run s cs) = slice_last 1800 (spatialData s @ inserted_spatial s cs)"
proof (induction cs arbitrary: s)
  case Nil
  then show ?case by (simp add: run_def slice_last_all)
next
  case (Cons c cs)
  have step: "spatialData (exec s c) = slice_last 1800 (spatialData s @ inserted_spatial s [c])"
    using spatialData_exec [of s c] Cons.prems by (auto simp: slice_last_all)
  then have "length (spatialData (exec s c)) \<le> 1800"
    by simp
  then have "spatialData (run (exec s c) cs)
      = slice_last 1800 (spatialData (exec s c) @ inserted_spatial (exec s c) cs)"
    by (rule Cons.IH)
  also have "\<dots> = slice_last 1800 ((spatialData s @ inserted_spatial s [c]) @ inserted_spatial (exec s c) cs)"
    unfolding step by (rule slice_last_append)
  finally show ?case
    by (simp add: run_def)
qed

lemma performanceMetrics_exec:
  "performanceMetrics (exec s c) = slice_last 1800 (performanceMetrics s @ inserted_perf s [c])
   \<or> (performanceMetrics (exec s c) = performanceMetrics s \<and> inserted_perf s [c] = [])"
  by (cases c) (simp_all add: performanceMetrics_logPerformance)

lemma performanceMetrics_run:
  "length (performanceMetrics s) \<le> 1800 \<Longrightarrow>
   performanceMetrics (run s cs) = slice_last 1800 (performanceMetrics s @ inserted_perf s cs)"
proof (induction cs arbitrary: s)
  case Nil
  then show ?case by (simp add: run_def slice_last_all)
next
  case (Cons c cs)
  have step: "performanceMetrics (exec s c)
      = slice_last 1800 (performanceMetrics s @ inserted_perf s [c])"
    using performanceMetrics_exec [of s c] Cons.prems by (auto simp: slice_last_all)
  then have "length (performanceMetrics (exec s c)) \<le> 1800"
    by simp
  then have "performanceMetrics (run (exec s c) cs)
      = slice_last 1800 (performanceMetrics (exec s c) @ inserted_perf (exec s c) cs)"
    by (rule Cons.IH)
  also have "\<dots> = slice_last 1800
      ((performanceMetrics s @ inserted_perf s [c]) @ inserted_perf (exec s c) cs)"
    unfolding step by (rule slice_last_append)
  finally show ?case
    by (simp add: run_def)
qed

lemma newCollector_sel [simp]:
  "events (newCollector sid plat clk st ok) = []"
  "spatialData (newCollector sid plat clk st ok) = []"
  "performanceMetrics (newCollector sid plat clk st ok) = []"
  "userInteractions (newCollector sid plat clk st ok) = []"
  "clock (newCollector sid plat clk st ok) = clk"
  "ticks (newCollector sid plat clk st ok) = 2"
  "startTime (newCollector sid plat clk st ok) = clk 0"
  "isVRMode (newCollector sid plat clk st ok) = False"
  "vrSessionStart (newCollector sid plat clk st ok) = None"
  by (simp_all add: newCollector_def)

text \<open>
  Claim C1. Take any sequence of calls on a new collector. After it the spatial buffer
  holds at most 1800 samples, and it is the list of the samples that \<open>logSpatialData\<close>
  inserted, in the order of insertion, without all but its last 1800: all of them while
  no more than 1800 were inserted, the 1800 most recent ones afterwards. The same holds
  for the performance buffer and \<open>logPerformance\<close>. Every prefix of a sequence is a
  sequence, so this is the state after each call.
\<close>

theorem buffers_keep_last_1800:
  "let s0 = newCollector sid plat clk st ok;
       sp = inserted_spatial s0 cs;
       pf = inserted_perf s0 cs
   in length (spatialData (run s0 cs)) \<le> 1800
      \<and> spatialData (run s0 cs) = drop (length sp - 1800) sp
      \<and> length (performanceMetrics (run s0 cs)) \<le> 1800
      \<and> performanceMetrics (run s0 cs) = drop (length pf - 1800) pf"
proof -
  let ?s0 = "newCollector sid plat clk st ok"
  have sp: "spatialData (run ?s0 cs) = slice_last 1800 (inserted_spatial ?s0 cs)"
    using spatialData_run [of ?s0 cs] by simp
  have pf: "performanceMetrics (run ?s0 cs) = slice_last 1800 (inserted_perf ?s0 cs)"
    using performanceMetrics_run [of ?s0 cs] by simp
  show ?thesis
    unfolding Let_def sp pf by (auto simp: slice_last_def)
qed

lemma inserted_spatial_replicate:
  "length (inserted_spatial s (replicate n (LogSpatialData p r sc ot))) = n"
  by (induction n arbitrary: s) simp_all

lemma inserted_perf_replicate:
  "length (inserted_perf s (replicate n (LogPerformance f r m))) = n"
  by (induction n arbitrary: s) simp_all

theorem buffers_keep_last_1800_witness:
  "length (spatialData (run (newCollector ''vr_1'' ''Windows'' (\<lambda>n. real n) Absent (\<lambda>es. True))
      (replicate 2000 (LogSpatialData origin origin None ''user'')))) = 1800
   \<and> length (performanceMetrics (run (newCollector ''vr_1'' ''Windows'' (\<lambda>n. real n) Absent (\<lambda>es. True))
      (replicate 2000 (LogPerformance 60 16 None)))) = 1800"
  using buffers_keep_last_1800 [of "''vr_1''" "''Windows''" "\<lambda>n. real n" Absent "\<lambda>es. True"
      "replicate 2000 (LogSpatialData origin origin None ''user'')"]
    buffers_keep_last_1800 [of "''vr_1''" "''Windows''" "\<lambda>n. real n" Absent "\<lambda>es. True"
      "replicate 2000 (LogPerformance 60 16 None)"]
  by (simp add: Let_def inserted_spatial_replicate inserted_perf_replicate)

subsection \<open>The periodic events\<close>

lemma count_logEvent:
  assumes "ty' \<notin> internal_types"
  shows "count_events ty' (snd (logEvent ty d s))
           = count_events ty' s + (if effectiveType ty d = ty' then 1 else 0)"
proof -
  obtain es where es: "events (snd (logEvent ty d s)) = events s @ pushed ty d s # es"
      "eventType ` set es \<subseteq> internal_types"
    using logEvent_shape by blast
  have "filter (\<lambda>e. eventType e = ty') es = []"
    using es(2) assms by (auto simp: filter_empty_conv)
  then show ?thesis
    by (simp add: count_events_def es(1))
qed

lemma run_snoc: "run s (cs @ [c]) = exec (run s cs) c"
  by (simp add: run_def)

lemma replicate_snoc: "replicate (Suc n) c = replicate n c @ [c]"
  by (simp add: replicate_append_same)

lemma not_internal [simp]:
  "''spatial_tracking'' \<notin> internal_types"
  "''performance_metrics'' \<notin> internal_types"
  "''user_interaction'' \<notin> internal_types"
  "''vr_mode_change'' \<notin> internal_types"
  "''vr_session_start'' \<notin> internal_types"
  by (simp_all add: internal_types_def)

lemma count_logSpatialData:
  "count_events ''spatial_tracking'' (logSpatialData p r sc ot s)
     = count_events ''spatial_tracking'' s
       + (if Suc (length (spatialData s)) mod 30 = 0 then 1 else 0)"
proof -
  have frame: "count_events ty (s'\<lparr>spatialData := xs\<rparr>) = count_events ty s'" for ty s' xs
    by (simp add: count_events_def)
  have tick: "count_events ty (s'\<lparr>ticks := k\<rparr>) = count_events ty s'" for ty s' k
    by (simp add: count_events_def)
  show ?thesis
    by (simp add: logSpatialData_def now_def Let_def count_logEvent frame tick)
qed

lemma count_logPerformance:
  "count_events ''performance_metrics'' (logPerformance f r m s)
     = count_events ''performance_metrics'' s
       + (if Suc (length (performanceMetrics s)) mod 300 = 0 then 1 else 0)"
proof -
  have frame: "count_events ty (s'\<lparr>performanceMetrics := xs\<rparr>) = count_events ty s'" for ty s' xs
    by (simp add: count_events_def)
  have tick: "count_events ty (s'\<lparr>ticks := k\<rparr>) = count_events ty s'" for ty s' k
    by (simp add: count_events_def)
  show ?thesis
    by (simp add: logPerformance_def now_def Let_def count_logEvent frame tick)
qed

lemma length_spatialData_replicate:
  "length (spatialData (run (newCollector sid plat clk st ok)
      (replicate n (LogSpatialData p r sc ot)))) = min n 1800"
  using spatialData_run [of "newCollector sid plat clk st ok" "replicate n (LogSpatialData p r sc ot)"]
  by (simp add: inserted_spatial_replicate min.commute)

lemma length_performanceMetrics_replicate:
  "length (performanceMetrics (run (newCollector sid plat clk st ok)
      (replicate n (LogPerformance f r m)))) = min n 1800"
  using performanceMetrics_run [of "newCollector sid plat clk st ok" "replicate n (LogPerformance f r m)"]
  by (simp add: inserted_perf_replicate min.commute)

lemma count_events_new [simp]: "count_events ty (newCollector sid plat clk st ok) = 0"
  by (simp add: count_events_def)

lemma spatial_tracking_count:
  "count_events ''spatial_tracking'' (run (newCollector sid plat clk st ok)
      (replicate n (LogSpatialData p r sc ot))) = min n 1800 div 30"
proof (induction n)
  case 0
  show ?case by (simp add: run_def)
next
  case (Suc n)
  have "min (Suc n) 1800 div 30
      = min n 1800 div 30 + (if Suc (min n 1800) mod 30 = 0 then 1 else 0)"
    by (cases "n < 1800") (simp_all add: min_def div_Suc)
  then show ?case
    unfolding replicate_snoc run_snoc
    by (simp add: count_logSpatialData Suc.IH length_spatialData_replicate)
qed

lemma performance_metrics_count:
  "count_events ''performance_metrics'' (run (newCollector sid plat clk st ok)
      (replicate n (LogPerformance f r m))) = min n 1800 div 300"
proof (induction n)
  case 0
  show ?case by (simp add: run_def)
next
  case (Suc n)
  have "min (Suc n) 1800 div 300
      = min n 1800 div 300 + (if Suc (min n 1800) mod 300 = 0 then 1 else 0)"
    by (cases "n < 1800") (simp_all add: min_def div_Suc)
  then show ?case
    unfolding replicate_snoc run_snoc
    by (simp add: count_logPerformance Suc.IH length_performanceMetrics_replicate)
qed

text \<open>
  Claim C2 says that the n-th call of \<open>logSpatialData\<close> emits a \<open>spatial_tracking\<close>
  event exactly when n is a multiple of 30, and the n-th call of \<open>logPerformance\<close> a
  \<open>performance_metrics\<close> event exactly when n is a multiple of 300, also after the
  buffers have reached 1800 samples. The code tests the length of the buffer, not the
  number of the call: once the buffer is full every call sees the length 1801, so no
  event is emitted any more (\<open>spatial_tracking_count\<close>, \<open>performance_metrics_count\<close>).
  On a new collector the 1830th call of \<open>logSpatialData\<close> leaves the number of
  \<open>spatial_tracking\<close> events at 60, and the 2100th call of \<open>logPerformance\<close> leaves the
  number of \<open>performance_metrics\<close> events at 6.
\<close>

theorem periodic_events_stop_at_cap:
  "count_events ''spatial_tracking''
     (run (newCollector ''vr_1'' ''Windows'' (\<lambda>n. real n) Absent (\<lambda>es. True))
        (replicate 1829 (LogSpatialData origin origin None ''user''))) = 60
   \<and> count_events ''spatial_tracking''
     (run (newCollector ''vr_1'' ''Windows'' (\<lambda>n. real n) Absent (\<lambda>es. True))
        (replicate 1830 (LogSpatialData origin origin None ''user''))) = 60
   \<and> count_events ''performance_metrics''
     (run (newCollector ''vr_1'' ''Windows'' (\<lambda>n. real n) Absent (\<lambda>es. True))
        (replicate 2099 (LogPerformance 60 16 None))) = 6
   \<and> count_events ''performance_metrics''
     (run (newCollector ''vr_1'' ''Windows'' (\<lambda>n. real n) Absent (\<lambda>es. True))
        (replicate 2100 (LogPerformance 60 16 None))) = 6"
  by (simp add: spatial_tracking_count performance_metrics_count)

subsection \<open>Detection of rapid interactions\<close>

lemma detects_frame [simp]:
  "detects (push ty d s) = detects s"
  "detects (s\<lparr>ticks := k\<rparr>) = detects s"
  "rapid_payload (push ty d s) = rapid_payload s"
  "rapid_payload (s\<lparr>ticks := k\<rparr>) = rapid_payload s"
  by (simp_all add: detects_def rapid_payload_def push_def)

lemma logEvent_user_interaction:
  "effectiveType ''user_interaction'' d = ''user_interaction'' \<Longrightarrow>
   snd (logEvent ''user_interaction'' d s) =
     (if detects s then
        push ''rapid_interaction_detected'' (rapid_payload s) (push ''user_interaction'' d s)
      else push ''user_interaction'' d s)"
  by (simp add: logEvent_unfold processEventRealTime.simps processInteractionEvent_eq
      persistIf_def)

lemma effectiveType_rapid [simp]: "effectiveType ty (rapid_payload s) = ty"
  by (simp add: rapid_payload_def Let_def)

lemma effectiveType_interaction:
  "ov_eventType (ia_keys i) = None \<Longrightarrow> effectiveType ty (InteractionData i) = ty"
  by (simp add: effectiveType_def)

lemma userInteractions_push [simp]: "userInteractions (push ty d s) = userInteractions s"
  by (simp add: push_def)

lemma ticks_push [simp]: "ticks (push ty d s) = Suc (Suc (ticks s))"
  by (simp add: push_def)

lemma clock_push [simp]: "clock (push ty d s) = clock s"
  by (simp add: push_def)

lemma isVRMode_push [simp]: "isVRMode (push ty d s) = isVRMode s"
  by (simp add: push_def)

lemma count_push:
  "count_events ty' (push ty d s)
     = count_events ty' s + (if effectiveType ty d = ty' then 1 else 0)"
  by (simp add: count_events_def)

lemma count_logInteraction:
  assumes "ov_eventType (id_keys d) = None"
  shows "count_events ''rapid_interaction_detected'' (snd (logInteraction ty tg p d s))
     = count_events ''rapid_interaction_detected'' s + (if detects s then 1 else 0)"
proof -
  have frame: "count_events t (s'\<lparr>userInteractions := xs\<rparr>) = count_events t s'" for t s' xs
    by (simp add: count_events_def)
  have tick: "count_events t (s'\<lparr>ticks := k\<rparr>) = count_events t s'" for t s' k
    by (simp add: count_events_def)
  have upd: "count_events t (updateInteractionMetrics i s') = count_events t s'" for t i s'
    by (simp add: count_events_def updateInteractionMetrics_def Let_def)
  show ?thesis
    using assms
    by (simp add: logInteraction_def now_def Let_def logEvent_user_interaction upd frame
        count_push tick effectiveType_interaction)
qed

lemma userInteractions_logInteraction:
  "userInteractions (snd (logInteraction ty tg p d s)) =
     userInteractions s @ [fst (logInteraction ty tg p d s)]"
  by (simp add: logInteraction_def now_def Let_def updateInteractionMetrics_def)

lemma timestamp_logInteraction:
  "ia_timestamp (fst (logInteraction ty tg p d s))
     = replaced_by (ov_timestamp (id_keys d)) (clock s (ticks s))"
  by (simp add: logInteraction_def now_def Let_def)

lemma ticks_logInteraction:
  "ov_eventType (id_keys d) = None \<Longrightarrow>
   ticks (snd (logInteraction ty tg p d s)) = ticks s + (if detects s then 5 else 3)"
  by (simp add: logInteraction_def now_def Let_def updateInteractionMetrics_def
      logEvent_user_interaction effectiveType_interaction)

lemma frame_logEvent [simp]:
  "clock (snd (logEvent ty d s)) = clock s" "isVRMode (snd (logEvent ty d s)) = isVRMode s"
  using only_log_logEvent [of s ty d] by (simp_all add: only_log_def)

lemma clock_logInteraction [simp]:
  "clock (snd (logInteraction ty tg p d s)) = clock s"
  by (simp add: logInteraction_def now_def Let_def updateInteractionMetrics_def)

lemma isVRMode_logInteraction [simp]:
  "isVRMode (snd (logInteraction ty tg p d s)) = isVRMode s"
  by (simp add: logInteraction_def now_def Let_def updateInteractionMetrics_def)

lemma detects_needs_three: "detects s \<Longrightarrow> 3 \<le> length (userInteractions s)"
  by (simp add: detects_def Let_def)

lemma gap_sum_3: "gap_sum [a, b, c] = fadd (fadd 0 (fsub b a)) (fsub c b)"
  by (simp add: gap_sum_def numeral_3_eq_3)

lemma first_three_interactions_undetected:
  "list_all is_interaction cs \<Longrightarrow> length (userInteractions s) + length cs \<le> 3 \<Longrightarrow>
   count_events ''rapid_interaction_detected'' (run s cs)
     = count_events ''rapid_interaction_detected'' s"
proof (induction cs arbitrary: s)
  case Nil
  show ?case by (simp add: run_def)
next
  case (Cons c cs)
  from Cons.prems(1) obtain ty tg p d
    where c: "c = LogInteraction ty tg p d" and d: "ov_eventType (id_keys d) = None"
    by (cases c) simp_all
  have "\<not> detects s"
    using Cons.prems(2) detects_needs_three [of s] by auto
  then have step: "count_events ''rapid_interaction_detected'' (exec s c)
      = count_events ''rapid_interaction_detected'' s"
    by (simp add: c d count_logInteraction)
  have "length (userInteractions (exec s c)) + length cs \<le> 3"
    using Cons.prems(2) by (simp add: c userInteractions_logInteraction)
  with Cons.prems(1) have "count_events ''rapid_interaction_detected'' (run (exec s c) cs)
      = count_events ''rapid_interaction_detected'' (exec s c)"
    by (intro Cons.IH) simp_all
  then show ?case
    by (simp add: run_def step)
qed

text \<open>
  Claim C3 says that three interactions logged within 500ms of each other give one
  \<open>rapid_interaction_detected\<close> event. \<open>logInteraction\<close> dispatches the
  \<open>user_interaction\<close> event before it appends the interaction to the list that the
  detection reads, so a call is judged on the interactions before it
  (\<open>count_logInteraction\<close>), and the first three calls log no such event whatever
  the clock (\<open>first_three_interactions_undetected\<close>). Three calls 30ms apart on a new
  collector, at 20, 50 and 80 ms, log no such event; the fourth call logs the first one.
\<close>

theorem three_rapid_interactions_not_detected:
  "count_events ''rapid_interaction_detected''
     (run (newCollector ''vr_1'' ''Windows'' (\<lambda>n. 10 * real n) Absent (\<lambda>es. True))
        [click, click, click]) = 0
   \<and> map ia_timestamp (userInteractions
     (run (newCollector ''vr_1'' ''Windows'' (\<lambda>n. 10 * real n) Absent (\<lambda>es. True))
        [click, click, click])) = [20, 50, 80]
   \<and> count_events ''rapid_interaction_detected''
     (run (newCollector ''vr_1'' ''Windows'' (\<lambda>n. 10 * real n) Absent (\<lambda>es. True))
        [click, click, click, click]) = 1"
  by (simp add: run_def click_def no_data_def no_overrides_def count_logInteraction
      userInteractions_logInteraction timestamp_logInteraction ticks_logInteraction
      detects_def slice_last_def gap_sum_3 fadd_def fsub_def fdiv_def)

subsection \<open>Events of the type \<open>vr_session_start\<close>\<close>

lemma vrModeUsed_upd [simp]:
  "vrModeUsed (s\<lparr>ticks := k\<rparr>) = vrModeUsed s"
  "vrModeUsed (s\<lparr>spatialData := sd\<rparr>) = vrModeUsed s"
  "vrModeUsed (s\<lparr>performanceMetrics := pm\<rparr>) = vrModeUsed s"
  "vrModeUsed (s\<lparr>userInteractions := ui\<rparr>) = vrModeUsed s"
  "vrModeUsed (s\<lparr>isVRMode := b\<rparr>) = vrModeUsed s"
  "vrModeUsed (s\<lparr>vrCapable := b\<rparr>) = vrModeUsed s"
  "vrModeUsed (s\<lparr>vrSessionStart := v\<rparr>) = vrModeUsed s"
  "vrModeUsed (s\<lparr>sd_interactionMetrics := m\<rparr>) = vrModeUsed s"
  by (simp_all add: vrModeUsed_def)

lemma vrModeUsed_logEvent:
  "vrModeUsed (snd (logEvent ty d s))
     = (vrModeUsed s \<or> effectiveType ty d = ''vr_session_start'')"
proof -
  obtain es where es: "events (snd (logEvent ty d s)) = events s @ pushed ty d s # es"
      "eventType ` set es \<subseteq> internal_types"
    using logEvent_shape by blast
  have "\<not> list_ex (\<lambda>e. eventType e = ''vr_session_start'') es"
    using es(2) by (auto simp: list_ex_iff internal_types_def)
  then show ?thesis
    by (auto simp: vrModeUsed_def es(1) list_ex_iff eventType_pushed)
qed

lemma effectiveType_interaction_marked:
  "ia_keys i = k \<Longrightarrow>
   (effectiveType ''user_interaction'' (InteractionData i) = ''vr_session_start'')
     = (ov_eventType k = Some ''vr_session_start'')"
  by (cases "ov_eventType k") (auto simp: effectiveType_def)

lemma vrModeUsed_exec:
  "vrModeUsed (exec s c) = (vrModeUsed s \<or> marks_vr_session_start c)"
  by (cases c)
    (simp_all add: vrModeUsed_logEvent logInteraction_def logSpatialData_def logPerformance_def
      setVRMode_def getSessionSummary_def calculateEngagementScore_def
      updateInteractionMetrics_def now_def Let_def case_prod_beta
      effectiveType_interaction_marked)

lemma vrModeUsed_run:
  "vrModeUsed (run s cs) = (vrModeUsed s \<or> list_ex marks_vr_session_start cs)"
proof (induction cs arbitrary: s)
  case Nil
  show ?case by (simp add: run_def)
next
  case (Cons c cs)
  have "run s (c # cs) = run (exec s c) cs"
    by (simp add: run_def)
  then show ?case
    by (simp add: Cons.IH vrModeUsed_exec)
qed

lemma summary_vrModeUsed: "sm_vrModeUsed (fst (getSessionSummary s)) = vrModeUsed s"
  by (simp add: getSessionSummary_def now_def Let_def vrModeUsed_def)

lemma vrModeUsed_new [simp]: "\<not> vrModeUsed (newCollector sid plat clk st ok)"
  by (simp add: vrModeUsed_def)

subsection \<open>The engagement score\<close>

lemma component_bounds:
  assumes "0 \<le> x" "0 < c"
  shows "0 \<le> fmul (min (fdiv x c) 1) 30" "fmul (min (fdiv x c) 1) 30 \<le> 30"
    "\<bar>fmul (min (fdiv x c) 1) 30 - min (x / c) 1 * 30\<bar> \<le> 60 * eps"
proof -
  define a where "a = min (fdiv x c) 1"
  define e where "e = min (x / c) 1"
  have q: "0 \<le> x / c"
    using assms by simp
  have a0: "0 \<le> a"
    using rd_nonneg [OF q] by (simp add: a_def fdiv_def)
  have a1: "a \<le> 1"
    by (simp add: a_def)
  have ae: "\<bar>a - e\<bar> \<le> 1 * eps"
  proof (cases "1 \<le> x / c")
    case True
    then have "1 \<le> rd (x / c)"
      using rd_mono [of 1 "x / c"] by simp
    then show ?thesis
      using True eps_pos by (simp add: a_def e_def fdiv_def min_def)
  next
    case False
    then have lt: "x / c \<le> 1"
      by simp
    then have "rd (x / c) \<le> 1"
      using rd_mono [of "x / c" 1] by simp
    moreover have "\<bar>rd (x / c) - x / c\<bar> \<le> 1 * eps"
      using q lt by (intro rd_error_bounded) simp
    ultimately show ?thesis
      using lt by (simp add: a_def e_def fdiv_def min_def)
  qed
  have m0: "0 \<le> a * 30" and m1: "a * 30 \<le> 30"
    using a0 a1 by simp_all
  have r0: "0 \<le> rd (a * 30)"
    using rd_nonneg [OF m0] .
  have r1: "rd (a * 30) \<le> 30"
    using rd_mono [OF m1] by simp
  have "\<bar>rd (a * 30) - a * 30\<bar> \<le> 30 * eps"
    using m0 m1 by (intro rd_error_bounded) simp
  moreover have "\<bar>a * 30 - e * 30\<bar> \<le> 30 * eps"
    using ae by linarith
  ultimately have "\<bar>rd (a * 30) - e * 30\<bar> \<le> 30 * eps + 30 * eps"
    by (rule dist_trans)
  then have r2: "\<bar>rd (a * 30) - e * 30\<bar> \<le> 60 * eps"
    by simp
  show "0 \<le> fmul (min (fdiv x c) 1) 30" "fmul (min (fdiv x c) 1) 30 \<le> 30"
    "\<bar>fmul (min (fdiv x c) 1) 30 - min (x / c) 1 * 30\<bar> \<le> 60 * eps"
    using r0 r1 r2 by (simp_all add: fmul_def a_def e_def)
qed

lemma sum_bounds:
  assumes p: "0 \<le> p" "p \<le> 30" "\<bar>p - p'\<bar> \<le> 60 * eps"
    and q: "0 \<le> q" "q \<le> 30" "\<bar>q - q'\<bar> \<le> 60 * eps"
    and v: "v = 0 \<or> v = 25"
    and f: "f = 5 \<or> f = 10 \<or> f = 15"
  shows "5 \<le> fadd (fadd (fadd p q) v) f" "fadd (fadd (fadd p q) v) f \<le> 100"
    "\<bar>fadd (fadd (fadd p q) v) f - (p' + q' + v + f)\<bar> \<le> 365 * eps"
proof -
  define s1 where "s1 = fadd p q"
  define s2 where "s2 = fadd s1 v"
  define s3 where "s3 = fadd s2 f"
  have pq: "0 \<le> p + q" "p + q \<le> 60"
    using p(1,2) q(1,2) by simp_all
  have s1: "0 \<le> s1" "s1 \<le> 60" "\<bar>s1 - (p + q)\<bar> \<le> 60 * eps"
    unfolding s1_def using pq
    by (simp_all add: fadd_lower fadd_upper fadd_error)
  have sv: "0 \<le> s1 + v" "s1 + v \<le> 85"
    using s1(1,2) v by auto
  have s2: "0 \<le> s2" "s2 \<le> 85" "\<bar>s2 - (s1 + v)\<bar> \<le> 85 * eps"
    unfolding s2_def using sv
    by (simp_all add: fadd_lower fadd_upper fadd_error)
  have sf: "5 \<le> s2 + f" "s2 + f \<le> 100"
    using s2(1,2) f by auto
  have s3: "5 \<le> s3" "s3 \<le> 100" "\<bar>s3 - (s2 + f)\<bar> \<le> 100 * eps"
    unfolding s3_def using sf
    by (simp_all add: fadd_lower fadd_upper fadd_error)
  have "\<bar>s3 - (p' + q' + v + f)\<bar> \<le> 365 * eps"
    using p(3) q(3) s1(3) s2(3) s3(3) by linarith
  then show "5 \<le> fadd (fadd (fadd p q) v) f" "fadd (fadd (fadd p q) v) f \<le> 100"
    "\<bar>fadd (fadd (fadd p q) v) f - (p' + q' + v + f)\<bar> \<le> 365 * eps"
    using s3(1,2) by (simp_all add: s1_def s2_def s3_def)
qed


lemma score_eq:
  "fst (calculateEngagementScore s) =
     engagement_formula (durationSeconds s) (length (userInteractions s)) (vrModeUsed s)
       (calculateAverageFPS s)"
  by (simp add: calculateEngagementScore_def getSessionSummary_def now_def Let_def
      engagement_formula_def durationSeconds_def vrModeUsed_def calculateAverageFPS_def)

lemma duration_nonneg: "startTime s \<le> clock s (ticks s) \<Longrightarrow> 0 \<le> durationSeconds s"
proof -
  assume "startTime s \<le> clock s (ticks s)"
  then have "0 \<le> fsub (clock s (ticks s)) (startTime s)"
    unfolding fsub_def by (intro rd_nonneg) simp
  then show ?thesis
    unfolding durationSeconds_def fdiv_def by (intro rd_nonneg) simp
qed

lemma formula_bounds:
  assumes "0 \<le> d"
  shows "5 \<le> engagement_formula d n vr avg" "engagement_formula d n vr avg \<le> 100"
    "\<bar>of_int (engagement_formula d n vr avg) - weighted_sum d n vr avg\<bar> \<le> 1 / 2 + 1 / 2 ^ 44"
proof -
  define p where "p = fmul (min (fdiv d 300) 1) 30"
  define q where "q = fmul (min (fdiv (real n) 50) 1) 30"
  define v :: real where "v = (if vr then 25 else 0)"
  define f :: real where "f = (if avg > 45 then 15 else if avg > 30 then 10 else 5)"
  define x where "x = fadd (fadd (fadd p q) v) f"
  have p: "0 \<le> p" "p \<le> 30" "\<bar>p - min (d / 300) 1 * 30\<bar> \<le> 60 * eps"
    unfolding p_def using assms by (simp_all add: component_bounds)
  have q: "0 \<le> q" "q \<le> 30" "\<bar>q - min (real n / 50) 1 * 30\<bar> \<le> 60 * eps"
    unfolding q_def by (simp_all add: component_bounds)
  have v: "v = 0 \<or> v = 25"
    by (simp add: v_def)
  have f: "f = 5 \<or> f = 10 \<or> f = 15"
    by (simp add: f_def)
  have x: "5 \<le> x" "x \<le> 100"
    "\<bar>x - (min (d / 300) 1 * 30 + min (real n / 50) 1 * 30 + v + f)\<bar> \<le> 365 * eps"
    unfolding x_def using p q v f by (rule sum_bounds)+
  have e: "engagement_formula d n vr avg = js_round x"
    by (simp add: engagement_formula_def x_def p_def q_def v_def f_def)
  have w: "weighted_sum d n vr avg = min (d / 300) 1 * 30 + min (real n / 50) 1 * 30 + v + f"
    by (simp add: weighted_sum_def v_def f_def)
  show "5 \<le> engagement_formula d n vr avg"
    unfolding e js_round_def using x(1) by (simp add: le_floor_iff)
  show "engagement_formula d n vr avg \<le> 100"
    unfolding e js_round_def using x(2) by (simp add: floor_le_iff)
  have "365 * eps \<le> 1 / 2 ^ 44"
    by (simp add: eps_def)
  then show "\<bar>of_int (engagement_formula d n vr avg) - weighted_sum d n vr avg\<bar>
      \<le> 1 / 2 + 1 / 2 ^ 44"
    unfolding e w using x(3) js_round_error [of x] by linarith
qed

lemma clock_frame_exec: "startTime (exec s c) = startTime s \<and> clock (exec s c) = clock s"
proof -
  have le: "startTime (snd (logEvent ty d s')) = startTime s'
      \<and> clock (snd (logEvent ty d s')) = clock s'" for ty d s'
    using only_log_logEvent [of s' ty d] by (simp add: only_log_def)
  show ?thesis
    by (cases c)
      (simp_all add: le logInteraction_def logSpatialData_def logPerformance_def setVRMode_def
        getSessionSummary_def calculateEngagementScore_def updateInteractionMetrics_def
        now_def Let_def case_prod_beta)
qed

lemma clock_frame_run: "startTime (run s cs) = startTime s \<and> clock (run s cs) = clock s"
proof (induction cs arbitrary: s)
  case Nil
  show ?case by (simp add: run_def)
next
  case (Cons c cs)
  have "run s (c # cs) = run (exec s c) cs"
    by (simp add: run_def)
  then show ?case
    using Cons.IH [of "exec s c"] clock_frame_exec [of s c] by simp
qed

lemma duration_nonneg_reachable:
  "mono clk \<Longrightarrow> s = run (newCollector sid plat clk st ok) cs \<Longrightarrow>
   startTime s \<le> clock s (ticks s)"
  by (simp add: clock_frame_run monoD)

lemma session_213_frame:
  "startTime session_213 = 0" "clock session_213 = (\<lambda>n. if n < 8 then 0 else 213000)"
  "\<not> vrModeUsed session_213"
  by (simp_all add: session_213_def vrModeUsed_run clock_frame_run click_def no_data_def
      no_overrides_def)

lemma session_213_facts:
  "ticks session_213 = 8" "length (userInteractions session_213) = 2"
  "performanceMetrics session_213 = []"
  by (simp_all add: session_213_def run_def click_def no_data_def no_overrides_def
      userInteractions_logInteraction ticks_logInteraction detects_def slice_last_def)

lemma duration_213: "durationSeconds session_213 = 213"
  by (simp add: durationSeconds_def session_213_facts session_213_frame fsub_def fdiv_def)

lemma formula_213: "engagement_formula 213 2 False 0 = 27"
proof -
  have e1: "fdiv 213 300 = 799388933858263 / 1125899906842624"
    unfolding fdiv_def using rd_in_binade [of "-1" "213 / 300"]
    by (simp add: round_half_even_def Let_def powr_minus_divide)
  have e2: "fmul (799388933858263 / 1125899906842624) 30 = 1498854250984243 / 70368744177664"
    unfolding fmul_def using rd_in_binade [of 4 "799388933858263 / 1125899906842624 * 30"]
    by (simp add: round_half_even_def Let_def powr_minus_divide)
  have e3: "fdiv 2 50 = 5764607523034235 / 144115188075855872"
    unfolding fdiv_def using rd_in_binade [of "-5" "2 / 50"]
    by (simp add: round_half_even_def Let_def powr_minus_divide)
  have e4: "fmul (5764607523034235 / 144115188075855872) 30
      = 5404319552844595 / 4503599627370496"
    unfolding fmul_def using rd_in_binade [of 0 "5764607523034235 / 144115188075855872 * 30"]
    by (simp add: round_half_even_def Let_def powr_minus_divide)
  have e5: "fadd (1498854250984243 / 70368744177664) (5404319552844595 / 4503599627370496)
      = 6333186975989759 / 281474976710656"
    unfolding fadd_def
    using rd_in_binade [of 4 "1498854250984243 / 70368744177664
        + 5404319552844595 / 4503599627370496"]
    by (simp add: round_half_even_def Let_def powr_minus_divide)
  have e6: "fadd (6333186975989759 / 281474976710656) 0 = 6333186975989759 / 281474976710656"
    unfolding fadd_def using rd_in_binade [of 4 "6333186975989759 / 281474976710656"]
    by (simp add: round_half_even_def Let_def powr_minus_divide)
  have e7: "fadd (6333186975989759 / 281474976710656) 5 = 7740561859543039 / 281474976710656"
    unfolding fadd_def using rd_in_binade [of 4 "6333186975989759 / 281474976710656 + 5"]
    by (simp add: round_half_even_def Let_def powr_minus_divide)
  show ?thesis
    by (simp add: engagement_formula_def e1 e2 e3 e4 e5 e6 e7 js_round_def)
qed

text \<open>
  Claim C4 gives the engagement score as the weighted sum of four components,
  rounded. Read in exact arithmetic the claim fails, because the source adds the
  components as doubles. After 213 seconds and 2 interactions, without a VR session
  and without performance samples, the exact sum is \<open>21.3 + 1.2 + 0 + 5 = 27.5\<close>, which
  rounds to 28; the doubles add up to \<open>27.499999999999996\<close>, and the score is 27.
\<close>

theorem score_of_213_seconds_and_2_interactions:
  "durationSeconds session_213 = 213 \<and> length (userInteractions session_213) = 2
   \<and> \<not> vrModeUsed session_213 \<and> calculateAverageFPS session_213 = 0
   \<and> js_round (weighted_sum 213 2 False 0) = 28
   \<and> fst (calculateEngagementScore session_213) = 27"
  by (simp add: score_eq duration_213 formula_213 session_213_facts session_213_frame
      calculateAverageFPS_def
      weighted_sum_def js_round_def)

text \<open>
  Claim C4, amended. In every state \<open>calculateEngagementScore\<close> returns the sum
  \<open>min (durationSeconds / 300) 1 * 30 + min (totalInteractions / 50) 1 * 30\<close>, plus 25
  if the event log holds a \<open>vr_session_start\<close> event, plus 15, 10 or 5 by the average
  fps, every operation rounded to a double and the sum rounded to the nearest integer.
  Whenever the clock has not gone backwards since the session started, which
  \<open>duration_nonneg_reachable\<close> gives for every state a monotonic clock can reach, the
  score differs from the exact value of that sum by at most \<open>1 / 2 + 1 / 2 ^ 44\<close>, and it
  is an integer between 5 and 100.
\<close>

theorem engagement_score_in_double_arithmetic:
  "fst (calculateEngagementScore s) =
     engagement_formula (durationSeconds s) (length (userInteractions s)) (vrModeUsed s)
       (calculateAverageFPS s)
   \<and> (startTime s \<le> clock s (ticks s) \<longrightarrow>
        \<bar>of_int (fst (calculateEngagementScore s))
           - weighted_sum (durationSeconds s) (length (userInteractions s)) (vrModeUsed s)
               (calculateAverageFPS s)\<bar> \<le> 1 / 2 + 1 / 2 ^ 44
        \<and> 5 \<le> fst (calculateEngagementScore s) \<and> fst (calculateEngagementScore s) \<le> 100)"
  using formula_bounds [OF duration_nonneg [of s]]
  by (simp add: score_eq)

theorem engagement_score_in_double_arithmetic_witness:
  "let s = newCollector ''vr_1'' ''Windows'' (\<lambda>n. 150000 * real n) Absent (\<lambda>es. True)
   in startTime s \<le> clock s (ticks s)
      \<and> fst (calculateEngagementScore s) = 35
      \<and> \<bar>of_int (fst (calculateEngagementScore s))
           - weighted_sum (durationSeconds s) (length (userInteractions s)) (vrModeUsed s)
               (calculateAverageFPS s)\<bar> \<le> 1 / 2 + 1 / 2 ^ 44
      \<and> 5 \<le> fst (calculateEngagementScore s) \<and> fst (calculateEngagementScore s) \<le> 100"
  using engagement_score_in_double_arithmetic
    [of "newCollector ''vr_1'' ''Windows'' (\<lambda>n. 150000 * real n) Absent (\<lambda>es. True)"]
  by (simp add: Let_def engagement_formula_def weighted_sum_def durationSeconds_def
      vrModeUsed_def calculateAverageFPS_def js_round_def fadd_def fsub_def fmul_def fdiv_def)

lemma full_component: "1 \<le> x / c \<Longrightarrow> fmul (min (fdiv x c) 1) 30 = 30"
proof -
  assume "1 \<le> x / c"
  then have "1 \<le> rd (x / c)"
    using rd_mono [of 1 "x / c"] by simp
  then show ?thesis
    by (simp add: fdiv_def fmul_def min_def)
qed

text \<open>
  Claim C5. A session of duration 0 with no interaction, no VR session and average
  fps 0 scores 5; a session of at least 300 seconds with at least 50 interactions, a
  VR session and an average fps above 45 scores 100.
\<close>

theorem engagement_score_floor_and_ceiling:
  "(durationSeconds s = 0 \<and> userInteractions s = [] \<and> \<not> vrModeUsed s
      \<and> calculateAverageFPS s = 0 \<longrightarrow> fst (calculateEngagementScore s) = 5)
   \<and> (300 \<le> durationSeconds s \<and> 50 \<le> length (userInteractions s) \<and> vrModeUsed s
      \<and> 45 < calculateAverageFPS s \<longrightarrow> fst (calculateEngagementScore s) = 100)"
proof -
  have "engagement_formula 0 0 False 0 = 5"
    by (simp add: engagement_formula_def js_round_def fadd_def fmul_def fdiv_def)
  moreover have "engagement_formula d n True avg = 100"
    if "300 \<le> d" "50 \<le> n" "45 < avg" for d n avg
    using that
    by (simp add: engagement_formula_def full_component js_round_def fadd_def)
  ultimately show ?thesis
    by (simp add: score_eq)
qed

lemma idle_session_facts:
  "durationSeconds idle_session = 0" "userInteractions idle_session = []"
  "\<not> vrModeUsed idle_session" "calculateAverageFPS idle_session = 0"
  by (simp_all add: idle_session_def durationSeconds_def vrModeUsed_def calculateAverageFPS_def
      fsub_def fdiv_def)

lemma busy_session_facts:
  "300 \<le> durationSeconds busy_session" "50 \<le> length (userInteractions busy_session)"
  "vrModeUsed busy_session" "45 < calculateAverageFPS busy_session"
  by (simp_all add: busy_session_def durationSeconds_def vrModeUsed_def calculateAverageFPS_def
      newCollector_def slice_last_def mkPerf_def round_to_def js_round_def
      fadd_def fsub_def fmul_def fdiv_def)

theorem engagement_score_floor_and_ceiling_witness:
  "(durationSeconds idle_session = 0 \<and> userInteractions idle_session = []
      \<and> \<not> vrModeUsed idle_session \<and> calculateAverageFPS idle_session = 0
      \<and> fst (calculateEngagementScore idle_session) = 5)
   \<and> (300 \<le> durationSeconds busy_session \<and> 50 \<le> length (userInteractions busy_session)
      \<and> vrModeUsed busy_session \<and> 45 < calculateAverageFPS busy_session
      \<and> fst (calculateEngagementScore busy_session) = 100)"
  using engagement_score_floor_and_ceiling [of idle_session]
    engagement_score_floor_and_ceiling [of busy_session]
    idle_session_facts busy_session_facts
  by simp

subsection \<open>The performance trend\<close>

lemma foldl_fadd_fps:
  "foldl (\<lambda>acc m. fadd acc (pf_fps m)) a xs = foldl fadd a (map pf_fps xs)"
  by (induction xs arbitrary: a) simp_all

lemma trend_unfold:
  assumes "120 \<le> length (performanceMetrics s)"
  shows "getPerformanceTrend s =
     (let change = js_times100 (js_div (fsub (mean (recent_fps s)) (mean (older_fps s)))
                                  (mean (older_fps s)))
      in if js_gt change 5 then ''improving''
         else if js_lt change (- 5) then ''degrading'' else ''stable'')"
proof -
  have "length (performanceMetrics s) - 60 - (length (performanceMetrics s) - 120) = 60"
    using assms by arith
  then show ?thesis
    using assms
    by (simp add: getPerformanceTrend_def slice_last_def slice_neg_def foldl_fadd_fps mean_def
        fsum_def recent_fps_def older_fps_def Let_def)
qed

lemma trend_nonzero:
  assumes "120 \<le> length (performanceMetrics s)" "mean (older_fps s) \<noteq> 0"
  shows "getPerformanceTrend s =
     (if percent_change s > 5 then ''improving''
      else if percent_change s < - 5 then ''degrading'' else ''stable'')"
  using assms(2) by (simp add: trend_unfold [OF assms(1)] js_div_def percent_change_def Let_def)

lemma trend_zero_older:
  assumes "120 \<le> length (performanceMetrics s)" "mean (older_fps s) = 0"
  shows "getPerformanceTrend s =
     (if mean (recent_fps s) > 0 then ''improving''
      else if mean (recent_fps s) < 0 then ''degrading'' else ''stable'')"
  using assms(2)
  by (simp add: trend_unfold [OF assms(1)] js_div_def Let_def fsub_def rd_sign)

lemma foldl_fadd_ints:
  "\<bar>a\<bar> + sum_list (map abs xs) < 2 ^ 53 \<Longrightarrow>
   foldl fadd (of_int a) (map of_int xs) = of_int (a + sum_list xs)"
proof (induction xs arbitrary: a)
  case Nil
  show ?case by simp
next
  case (Cons x xs)
  have "\<bar>a + x\<bar> < 2 ^ 53"
    using Cons.prems sum_list_abs [of xs] by simp
  then have "fadd (of_int a) (of_int x) = of_int (a + x)"
    using rd_of_int [of "a + x"] by (simp add: fadd_def)
  moreover have "\<bar>a + x\<bar> + sum_list (map abs xs) < 2 ^ 53"
    using Cons.prems by simp
  ultimately show ?case
    using Cons.IH [of "a + x"] by (simp add: add.assoc)
qed

lemma fsum_ints:
  "sum_list (map abs xs) < 2 ^ 53 \<Longrightarrow> fsum (map of_int xs) = of_int (sum_list xs)"
  using foldl_fadd_ints [of 0 xs] by (simp add: fsum_def)


lemma fsum_replicate:
  "int n * \<bar>c\<bar> < 2 ^ 53 \<Longrightarrow> fsum (replicate n (of_int c)) = of_int (int n * c)"
  using fsum_ints [of "replicate n c"] by (simp add: sum_list_replicate)

lemma fsum_append_ints:
  "sum_list (map abs xs) + sum_list (map abs ys) < 2 ^ 53 \<Longrightarrow>
   fsum (map of_int xs @ map of_int ys) = of_int (sum_list xs + sum_list ys)"
  using fsum_ints [of "xs @ ys"] by simp

lemma two_levels_slices:
  assumes "map pf_fps (performanceMetrics s) = xs @ ys" "length xs = 60" "length ys = 60"
  shows "120 \<le> length (performanceMetrics s)" "older_fps s = xs" "recent_fps s = ys"
proof -
  have len: "length (performanceMetrics s) = 120"
    using arg_cong [OF assms(1), of length] assms(2,3) by simp
  then show "120 \<le> length (performanceMetrics s)" by simp
  have "older_fps s = take 60 (map pf_fps (performanceMetrics s))"
    by (simp add: older_fps_def len take_map)
  then show "older_fps s = xs"
    by (simp add: assms)
  have "recent_fps s = drop 60 (map pf_fps (performanceMetrics s))"
    by (simp add: recent_fps_def len drop_map)
  then show "recent_fps s = ys"
    by (simp add: assms)
qed

lemma mean_level: "mean (replicate 60 50) = 50" "mean (replicate 60 56) = 56"
  using fsum_replicate [of 60 50] fsum_replicate [of 60 56]
  by (simp_all add: mean_def fdiv_def)

lemma change_50_56: "fmul (fdiv (fsub 56 50) 50) 100 = 12"
proof -
  have a: "fdiv 6 50 = 1080863910568919 / 9007199254740992"
    unfolding fdiv_def using rd_in_binade [of "-4" "6 / 50"]
    by (simp add: round_half_even_def Let_def powr_minus_divide)
  have b: "fmul (1080863910568919 / 9007199254740992) 100 = 12"
    unfolding fmul_def using rd_in_binade [of 3 "1080863910568919 / 9007199254740992 * 100"]
    by (simp add: round_half_even_def Let_def powr_minus_divide)
  show ?thesis
    by (simp add: fsub_def a b)
qed

lemma change_56_50: "fmul (fdiv (fsub 50 56) 56) 100 = - (6031606643799771 / 562949953421312)"
proof -
  have a: "fdiv (- 6) 56 = - (7720456504063707 / 72057594037927936)"
    unfolding fdiv_def using rd_in_binade [of "-4" "- 6 / 56"]
    by (simp add: round_half_even_def Let_def powr_minus_divide)
  have b: "fmul (- (7720456504063707 / 72057594037927936)) 100
      = - (6031606643799771 / 562949953421312)"
    unfolding fmul_def
    using rd_in_binade [of 3 "- (7720456504063707 / 72057594037927936) * 100"]
    by (simp add: round_half_even_def Let_def powr_minus_divide)
  show ?thesis
    by (simp add: fsub_def a b)
qed

lemma fps_inserted: "map pf_fps (inserted_perf s cs) = fps_logged cs"
  by (induction cs arbitrary: s) (simp_all add: mkPerf_def split: call.splits)

lemma fps_logged_append: "fps_logged (cs @ ds) = fps_logged cs @ fps_logged ds"
  by (induction cs) simp_all

lemma fps_logged_replicate:
  "fps_logged (replicate n (LogPerformance f r m)) = replicate n (round_to 10 f)"
  by (induction n) simp_all

lemma round_to_10: "round_to 10 1 = 1" "round_to 10 2 = 2"
  by (simp_all add: round_to_def js_round_def fmul_def fdiv_def)

lemma five_percent_fps:
  "map pf_fps (performanceMetrics five_percent_session)
     = replicate 60 1 @ (replicate 57 1 @ replicate 3 2)"
proof -
  define s0 where "s0 = newCollector ''vr_1'' ''Windows'' (\<lambda>n. real n) Absent (\<lambda>es. True)"
  define cs where
    "cs = replicate 117 (LogPerformance 1 16 None) @ replicate 3 (LogPerformance 2 16 None)"
  have split: "replicate 117 (1::real) = replicate 60 1 @ replicate 57 1"
    by (simp add: replicate_add [symmetric])
  have fps: "map pf_fps (inserted_perf s0 cs) = replicate 117 1 @ replicate 3 2"
    by (simp add: cs_def fps_inserted fps_logged_append fps_logged_replicate round_to_10)
  have "length (map pf_fps (inserted_perf s0 cs)) = 120"
    unfolding fps by simp
  then have "slice_last 1800 (inserted_perf s0 cs) = inserted_perf s0 cs"
    by (simp add: slice_last_all)
  then have "performanceMetrics five_percent_session = inserted_perf s0 cs"
    using performanceMetrics_run [of s0 cs]
    by (simp add: five_percent_session_def s0_def cs_def)
  then show ?thesis
    by (simp add: fps split)
qed

lemma fsum_57_3: "fsum (replicate 57 1 @ replicate 3 2) = 63"
  using fsum_append_ints [of "replicate 57 1" "replicate 3 2"]
  by (simp add: sum_list_replicate)

lemma five_percent_means:
  "mean (older_fps five_percent_session) = 1"
  "mean (recent_fps five_percent_session) = 4728779608739021 / 4503599627370496"
  "exact_mean (older_fps five_percent_session) = 1"
  "exact_mean (recent_fps five_percent_session) = 105 / 100"
proof -
  note sl = two_levels_slices [OF five_percent_fps]
  show "mean (older_fps five_percent_session) = 1"
    using fsum_replicate [of 60 1] by (simp add: sl mean_def fdiv_def)
  have "rd (63 / 60) = 4728779608739021 / 4503599627370496"
    using rd_in_binade [of 0 "63 / 60"]
    by (simp add: round_half_even_def Let_def powr_minus_divide)
  then show "mean (recent_fps five_percent_session) = 4728779608739021 / 4503599627370496"
    by (simp add: sl mean_def fdiv_def fsum_57_3)
  show "exact_mean (older_fps five_percent_session) = 1"
    by (simp add: sl exact_mean_def sum_list_replicate)
  show "exact_mean (recent_fps five_percent_session) = 105 / 100"
    by (simp add: sl exact_mean_def sum_list_replicate)
qed

lemma five_percent_change:
  "percent_change five_percent_session = 5629499534213125 / 1125899906842624"
proof -
  have a: "fsub (4728779608739021 / 4503599627370496) 1 = 225179981368525 / 4503599627370496"
    unfolding fsub_def using rd_in_binade [of "-5" "4728779608739021 / 4503599627370496 - 1"]
    by (simp add: round_half_even_def Let_def powr_minus_divide)
  have b: "fdiv (225179981368525 / 4503599627370496) 1 = 225179981368525 / 4503599627370496"
    unfolding fdiv_def using rd_in_binade [of "-5" "225179981368525 / 4503599627370496"]
    by (simp add: round_half_even_def Let_def powr_minus_divide)
  have c: "fmul (225179981368525 / 4503599627370496) 100
      = 5629499534213125 / 1125899906842624"
    unfolding fmul_def using rd_in_binade [of 2 "225179981368525 / 4503599627370496 * 100"]
    by (simp add: round_half_even_def Let_def powr_minus_divide)
  show ?thesis
    by (simp add: percent_change_def five_percent_means a b c)
qed

text \<open>
  Claim C6 decides the trend by whether the relative change of the mean fps exceeds
  5 percent. Read in exact arithmetic the claim fails at the threshold. After 117
  samples at 1 fps and 3 samples at 2 fps the older mean is 1 and the recent mean is
  1.05: a change of exactly 5 percent, which does not exceed 5 percent. The source
  divides 63 by 60 in doubles, finds a change of \<open>5.000000000000004\<close> percent, and
  answers \<open>improving\<close>.
\<close>

theorem trend_improving_at_five_percent:
  "length (performanceMetrics five_percent_session) = 120
   \<and> exact_mean (older_fps five_percent_session) = 1
   \<and> exact_mean (recent_fps five_percent_session) = 105 / 100
   \<and> relative_change five_percent_session = 5 / 100
   \<and> getPerformanceTrend five_percent_session = ''improving''"
proof -
  have "length (map pf_fps (performanceMetrics five_percent_session)) = 120"
    unfolding five_percent_fps by simp
  then have len: "length (performanceMetrics five_percent_session) = 120"
    by simp
  then have "getPerformanceTrend five_percent_session = ''improving''"
    by (simp add: trend_nonzero five_percent_means five_percent_change)
  then show ?thesis
    by (simp add: len relative_change_def five_percent_means)
qed

text \<open>
  Claim C6, amended. Below 120 performance samples the trend is \<open>insufficient_data\<close>.
  From 120 samples on it is decided by \<open>percent_change\<close>, the relative change from the
  mean fps of the 60 samples before the most recent 60 to the mean fps of the most
  recent 60, computed in double arithmetic: \<open>improving\<close> when it is above 5,
  \<open>degrading\<close> when it is below minus 5, \<open>stable\<close> otherwise. Where the older mean is
  zero the quotient is JavaScript's infinity or \<open>NaN\<close>, and the same comparisons give
  \<open>improving\<close> for a positive recent mean, \<open>degrading\<close> for a negative one and
  \<open>stable\<close> for zero. 60 samples at 50 fps followed by 60 at 56 fps give
  \<open>improving\<close>, the reverse gives \<open>degrading\<close>.
\<close>

theorem performance_trend_classification:
  "(length (performanceMetrics s) < 120 \<longrightarrow> getPerformanceTrend s = ''insufficient_data'')
   \<and> (120 \<le> length (performanceMetrics s) \<and> mean (older_fps s) \<noteq> 0 \<longrightarrow>
        getPerformanceTrend s =
          (if percent_change s > 5 then ''improving''
           else if percent_change s < - 5 then ''degrading'' else ''stable''))
   \<and> (120 \<le> length (performanceMetrics s) \<and> mean (older_fps s) = 0 \<longrightarrow>
        getPerformanceTrend s =
          (if mean (recent_fps s) > 0 then ''improving''
           else if mean (recent_fps s) < 0 then ''degrading'' else ''stable''))
   \<and> (map pf_fps (performanceMetrics s) = replicate 60 50 @ replicate 60 56 \<longrightarrow>
        getPerformanceTrend s = ''improving'')
   \<and> (map pf_fps (performanceMetrics s) = replicate 60 56 @ replicate 60 50 \<longrightarrow>
        getPerformanceTrend s = ''degrading'')"
proof -
  have "getPerformanceTrend s = ''improving''"
    if "map pf_fps (performanceMetrics s) = replicate 60 50 @ replicate 60 56"
    using two_levels_slices [OF that]
    by (simp add: trend_nonzero percent_change_def mean_level change_50_56)
  moreover have "getPerformanceTrend s = ''degrading''"
    if "map pf_fps (performanceMetrics s) = replicate 60 56 @ replicate 60 50"
    using two_levels_slices [OF that]
    by (simp add: trend_nonzero percent_change_def mean_level change_56_50)
  ultimately show ?thesis
    by (simp add: trend_nonzero trend_zero_older) (simp add: getPerformanceTrend_def)
qed

lemma two_levels_fps:
  "map pf_fps (performanceMetrics (two_levels a b)) = replicate 60 a @ replicate 60 b"
  by (simp add: two_levels_def)

lemma mean_zero_level: "mean (replicate 60 0) = 0"
  using fsum_replicate [of 60 0] by (simp add: mean_def fdiv_def)

theorem performance_trend_classification_witness:
  "length (performanceMetrics idle_session) < 120
   \<and> getPerformanceTrend idle_session = ''insufficient_data''
   \<and> 120 \<le> length (performanceMetrics (two_levels 50 56))
   \<and> mean (older_fps (two_levels 50 56)) \<noteq> 0
   \<and> percent_change (two_levels 50 56) = 12
   \<and> map pf_fps (performanceMetrics (two_levels 50 56)) = replicate 60 50 @ replicate 60 56
   \<and> getPerformanceTrend (two_levels 50 56) = ''improving''
   \<and> map pf_fps (performanceMetrics (two_levels 56 50)) = replicate 60 56 @ replicate 60 50
   \<and> getPerformanceTrend (two_levels 56 50) = ''degrading''
   \<and> 120 \<le> length (performanceMetrics (two_levels 0 56))
   \<and> mean (older_fps (two_levels 0 56)) = 0
   \<and> getPerformanceTrend (two_levels 0 56) = ''improving''"
  using performance_trend_classification [of idle_session]
    performance_trend_classification [of "two_levels 50 56"]
    performance_trend_classification [of "two_levels 56 50"]
    performance_trend_classification [of "two_levels 0 56"]
    two_levels_slices [OF two_levels_fps [of 50 56]]
    two_levels_slices [OF two_levels_fps [of 0 56]]
    two_levels_fps [of 50 56] two_levels_fps [of 56 50]
  by (simp add: idle_session_def percent_change_def mean_level mean_zero_level change_50_56)

subsection \<open>Movement metrics\<close>



















subsection \<open>The VR-start timestamp\<close>

lemma logEvent_vr_mode_change_enter:
  "snd (logEvent ''vr_mode_change'' (VRModeChange prv True t) s) =
     persistEvent (pushed ''vr_mode_change'' (VRModeChange prv True t) s)
       (push ''vr_experience_start'' (VRExperienceStart (Some t) (platform s))
          (push ''vr_mode_change'' (VRModeChange prv True t) s))"
  by (simp add: logEvent_unfold processEventRealTime.simps processVRModeChange.simps
      persistIf_def logEvent_leaf pushed_def mkEvent_def push_def)

lemma persistEvent_frame [simp]:
  "ticks (persistEvent ev s) = ticks s" "clock (persistEvent ev s) = clock s"
  "vrSessionStart (persistEvent ev s) = vrSessionStart s"
  by (simp_all add: persistEvent_def split: sum.splits)

lemma vrSessionStart_push [simp]: "vrSessionStart (push ty d s) = vrSessionStart s"
  by (simp add: push_def)

lemma vrSessionStart_logEvent [simp]:
  "vrSessionStart (snd (logEvent ty d s)) = vrSessionStart s"
  using only_log_logEvent [of s ty d] by (simp add: only_log_def)

lemma vrSessionStart_setVRMode:
  "vrSessionStart (setVRMode isVR s) =
     (if isVR \<and> \<not> truthy (vrSessionStart s) then Some (clock s (ticks s + 5))
      else vrSessionStart s)"
proof (cases isVR)
  case True
  then show ?thesis
    by (simp add: setVRMode_def now_def Let_def logEvent_vr_mode_change_enter eval_nat_numeral)
next
  case False
  then show ?thesis
    by (simp add: setVRMode_def now_def Let_def)
qed

lemma ticks_setVRMode_True:
  "ticks (setVRMode True s) = ticks s + (if truthy (vrSessionStart s) then 5 else 6)"
  by (simp add: setVRMode_def now_def Let_def logEvent_vr_mode_change_enter)

lemma clock_setVRMode [simp]: "clock (setVRMode isVR s) = clock s"
  using clock_frame_exec [of s "SetVRMode isVR"] by simp

lemma vrSessionStart_exec:
  assumes "vrSessionStart s = Some t" "t \<noteq> 0"
  shows "vrSessionStart (exec s c) = Some t"
  using assms
  by (cases c)
    (simp_all add: vrSessionStart_setVRMode truthy_def logInteraction_def logSpatialData_def
      logPerformance_def getSessionSummary_def calculateEngagementScore_def
      updateInteractionMetrics_def now_def Let_def case_prod_beta)

lemma vrSessionStart_run:
  "vrSessionStart s = Some t \<Longrightarrow> t \<noteq> 0 \<Longrightarrow> vrSessionStart (run s cs) = Some t"
proof (induction cs arbitrary: s)
  case Nil
  then show ?case by (simp add: run_def)
next
  case (Cons c cs)
  have "run s (c # cs) = run (exec s c) cs"
    by (simp add: run_def)
  then show ?case
    using Cons.IH [OF vrSessionStart_exec [OF Cons.prems] Cons.prems(2)] by simp
qed


lemma vr_start_kept_when_nonzero:
  "(vrSessionStart (setVRMode isVR s) \<noteq> vrSessionStart s \<longrightarrow>
      isVR \<and> \<not> truthy (vrSessionStart s))
   \<and> (vrSessionStart s = Some t \<and> t \<noteq> 0 \<longrightarrow> vrSessionStart (run s cs) = Some t)
   \<and> (vrSessionStart (setVRMode True s) \<noteq> Some 0 \<longrightarrow>
        vrSessionStart (setVRMode True (setVRMode True s)) = vrSessionStart (setVRMode True s))"
proof -
  have "vrSessionStart (setVRMode True (setVRMode True s)) = vrSessionStart (setVRMode True s)"
    if "vrSessionStart (setVRMode True s) \<noteq> Some 0"
  proof -
    have "truthy (vrSessionStart (setVRMode True s))"
      using that
      by (auto simp: vrSessionStart_setVRMode truthy_def split: option.splits if_splits)
    then show ?thesis
      by (simp add: vrSessionStart_setVRMode [of True "setVRMode True s"])
  qed
  then show ?thesis
    using vrSessionStart_run [of s t cs]
    by (auto simp: vrSessionStart_setVRMode split: if_splits)
qed

text \<open>
  Claim C8 says that once the VR-start timestamp is set no later \<open>setVRMode\<close> changes
  it. The guard of \<open>setVRMode\<close> tests the stored timestamp for truthiness, and a
  timestamp of 0 is falsy: in a new session whose clock still reads 0 when the first
  \<open>setVRMode(true)\<close> stamps, the stored timestamp is 0, and the second
  \<open>setVRMode(true)\<close> stamps again, with the reading 13. Where the stored timestamp is
  not 0 it is kept (\<open>vr_start_kept_when_nonzero\<close>).
\<close>

theorem vr_start_restamped_after_zero:
  "vrSessionStart early_session = None
   \<and> vrSessionStart (setVRMode True early_session) = Some 0
   \<and> vrSessionStart (setVRMode True (setVRMode True early_session)) = Some 13
   \<and> vrSessionStart (setVRMode True (setVRMode True early_session))
       \<noteq> vrSessionStart (setVRMode True early_session)"
  by (simp add: vrSessionStart_setVRMode ticks_setVRMode_True truthy_def early_session_def)

subsection \<open>Failures of the sink\<close>

lemma forget_sink_sel [simp]:
  "events (forget_sink s) = events s" "sessionId (forget_sink s) = sessionId s"
  "startTime (forget_sink s) = startTime s" "isVRMode (forget_sink s) = isVRMode s"
  "userInteractions (forget_sink s) = userInteractions s"
  "performanceMetrics (forget_sink s) = performanceMetrics s"
  "spatialData (forget_sink s) = spatialData s" "platform (forget_sink s) = platform s"
  "vrCapable (forget_sink s) = vrCapable s" "vrSessionStart (forget_sink s) = vrSessionStart s"
  "sd_interactionMetrics (forget_sink s) = sd_interactionMetrics s"
  "clock (forget_sink s) = clock s" "ticks (forget_sink s) = ticks s"
  by (simp_all add: forget_sink_def)

lemma forget_sink_idem [simp]: "forget_sink (forget_sink s) = forget_sink s"
  by (simp add: forget_sink_def)

lemma pushed_forget_sink [simp]: "pushed ty d (forget_sink s) = pushed ty d s"
  by (simp add: pushed_def mkEvent_def)

lemma forget_sink_push [simp]: "forget_sink (push ty d s) = push ty d (forget_sink s)"
  by (simp add: push_def forget_sink_def pushed_def mkEvent_def)

lemma forget_sink_persistEvent [simp]: "forget_sink (persistEvent ev s) = forget_sink s"
  by (simp add: persistEvent_def forget_sink_def split: sum.splits)

lemma forget_sink_persistIf [simp]: "forget_sink (persistIf ty ev s) = forget_sink s"
  by (simp add: persistIf_def)

lemma forget_sink_ticks [simp]:
  "forget_sink (s\<lparr>ticks := k\<rparr>) = (forget_sink s)\<lparr>ticks := k\<rparr>"
  by (simp add: forget_sink_def)

lemma forget_sink_leaf:
  "dispatches (effectiveType ty d) = 0 \<Longrightarrow>
   forget_sink (snd (logEvent ty d s)) = push ty d (forget_sink s)"
  by (simp add: logEvent_leaf)

lemma detects_forget_sink [simp]:
  "detects (forget_sink s) = detects s" "rapid_payload (forget_sink s) = rapid_payload s"
  by (simp_all add: detects_def rapid_payload_def)

lemma sink_free_processInteractionEvent:
  "forget_sink (processInteractionEvent ev s)
     = forget_sink (processInteractionEvent ev (forget_sink s))"
  by (simp add: processInteractionEvent_eq)

lemma sink_free_processPerformanceEvent:
  "forget_sink (processPerformanceEvent ev s)
     = forget_sink (processPerformanceEvent ev (forget_sink s))"
  by (simp add: processPerformanceEvent.simps Let_def forget_sink_leaf split: option.splits)

lemma sink_free_processVRModeChange:
  "forget_sink (processVRModeChange ev s)
     = forget_sink (processVRModeChange ev (forget_sink s))"
  by (simp add: processVRModeChange.simps Let_def forget_sink_leaf case_prod_beta now_def)

lemma sink_free_processEventRealTime:
  "forget_sink (processEventRealTime ev s)
     = forget_sink (processEventRealTime ev (forget_sink s))"
proof (cases "dispatches (eventType ev) = 0")
  case True
  then show ?thesis
    by (simp add: processEventRealTime.simps dispatches_def split: if_splits)
next
  case False
  then consider "eventType ev = ''user_interaction''" | "eventType ev = ''performance_metrics''"
    | "eventType ev = ''vr_mode_change''"
    by (auto simp: dispatches_def split: if_splits)
  then show ?thesis
  proof cases
    case 1
    then show ?thesis
      by (simp add: processEventRealTime.simps) (rule sink_free_processInteractionEvent)
  next
    case 2
    then show ?thesis
      by (simp add: processEventRealTime.simps) (rule sink_free_processPerformanceEvent)
  next
    case 3
    then show ?thesis
      by (simp add: processEventRealTime.simps) (rule sink_free_processVRModeChange)
  qed
qed

lemma sink_free_logEvent:
  "fst (logEvent ty d s) = fst (logEvent ty d (forget_sink s))"
  "forget_sink (snd (logEvent ty d s)) = forget_sink (snd (logEvent ty d (forget_sink s)))"
proof -
  show "fst (logEvent ty d s) = fst (logEvent ty d (forget_sink s))"
    by (simp add: logEvent_unfold)
  have "forget_sink (snd (logEvent ty d s))
      = forget_sink (processEventRealTime (pushed ty d s) (push ty d s))"
    by (simp add: logEvent_unfold)
  also have "\<dots> = forget_sink (processEventRealTime (pushed ty d s) (forget_sink (push ty d s)))"
    by (rule sink_free_processEventRealTime)
  also have "\<dots> = forget_sink (snd (logEvent ty d (forget_sink s)))"
    by (simp add: logEvent_unfold)
  finally show "forget_sink (snd (logEvent ty d s))
      = forget_sink (snd (logEvent ty d (forget_sink s)))" .
qed

lemma sink_append_cong:
  "storage s' = storage s \<Longrightarrow> setItem_ok s' = setItem_ok s \<Longrightarrow>
   sink_append ev s' = sink_append ev s"
  by (simp add: sink_append_def split: stored.splits)

lemma sink_push [simp]:
  "storage (push ty d s) = storage s" "setItem_ok (push ty d s) = setItem_ok s"
  "warnings (push ty d s) = warnings s"
  by (simp_all add: push_def)

lemma sink_untouched_before_persist:
  assumes "isImportantEvent ty"
  shows "storage (processEventRealTime (pushed ty d s) (push ty d s)) = storage s
    \<and> setItem_ok (processEventRealTime (pushed ty d s) (push ty d s)) = setItem_ok s
    \<and> warnings (processEventRealTime (pushed ty d s) (push ty d s)) = warnings s"
proof -
  let ?ev = "pushed ty d s"
  have data: "ev_data ?ev = d"
    by (simp add: pushed_def mkEvent_def Let_def)
  consider (ui) "eventType ?ev = ''user_interaction''"
    | (pm) "eventType ?ev = ''performance_metrics''"
    | (vr) "eventType ?ev = ''vr_mode_change''"
    | (other) "dispatches (eventType ?ev) = 0"
    unfolding dispatches_def by fastforce
  then show ?thesis
  proof cases
    case ui
    then show ?thesis
      by (simp add: processEventRealTime.simps processInteractionEvent_eq logEvent_leaf
          persistIf_def isImportantEvent_def)
  next
    case pm
    then have "effectiveType ty d = ''performance_metrics''"
      by (simp add: eventType_pushed)
    then have "payload_current d = None"
      using assms by (cases d) (auto simp: isImportantEvent_def)
    then show ?thesis
      using pm by (simp add: processEventRealTime.simps processPerformanceEvent.simps data)
  next
    case vr
    then show ?thesis
      by (simp add: processEventRealTime.simps processVRModeChange.simps logEvent_leaf
          persistIf_def now_def Let_def isImportantEvent_def)
  next
    case other
    then show ?thesis
      by (simp add: processEventRealTime.simps dispatches_def split: if_splits)
  qed
qed

lemma events_prefix_logEvent:
  "take (Suc (length (events s))) (events (snd (logEvent ty d s)))
     = events s @ [fst (logEvent ty d s)]"
proof -
  obtain es where "events (snd (logEvent ty d s)) = events s @ pushed ty d s # es"
    using logEvent_shape by blast
  then show ?thesis
    by (simp add: fst_logEvent)
qed

text \<open>
  Claim C9. \<open>logEvent\<close> has no error result: what \<open>sink_append\<close> raises is caught in
  \<open>persistEvent\<close>. For an event of an important type whose append to the sink raises,
  \<open>logEvent\<close> returns the event it constructed, the event log is the old log followed
  by that event (and by what its real-time processing logged), the error is recorded as
  a warning, the storage is as before, and the collector, its sink set aside, is in the
  state that the same call reaches with any other storage and any other answer of the
  browser to writes, a successful one included.
\<close>

theorem sink_failure_is_swallowed:
  "isImportantEvent ty \<and> sink_append (fst (logEvent ty d s)) s = Inl err \<longrightarrow>
     fst (logEvent ty d s) = mkEvent ty d s (clock s (ticks s)) (clock s (Suc (ticks s)))
     \<and> take (Suc (length (events s))) (events (snd (logEvent ty d s)))
         = events s @ [fst (logEvent ty d s)]
     \<and> warnings (snd (logEvent ty d s)) = warnings s @ [err]
     \<and> storage (snd (logEvent ty d s)) = storage s
     \<and> forget_sink (snd (logEvent ty d s))
         = forget_sink (snd (logEvent ty d (s\<lparr>storage := st, setItem_ok := ok\<rparr>)))"
proof (intro impI, elim conjE)
  assume imp: "isImportantEvent ty" and fails: "sink_append (fst (logEvent ty d s)) s = Inl err"
  let ?ev = "pushed ty d s"
  let ?s4 = "processEventRealTime ?ev (push ty d s)"
  have "sink_append ?ev ?s4 = sink_append ?ev s"
    using sink_untouched_before_persist [OF imp, of d s]
    by (intro sink_append_cong) simp_all
  then have "sink_append ?ev ?s4 = Inl err"
    using fails by (simp add: fst_logEvent)
  then have after: "snd (logEvent ty d s) = ?s4\<lparr>warnings := warnings ?s4 @ [err]\<rparr>"
    using imp by (simp add: logEvent_unfold persistIf_def persistEvent_def)
  have "forget_sink (s\<lparr>storage := st, setItem_ok := ok\<rparr>) = forget_sink s"
    by (simp add: forget_sink_def)
  then have "forget_sink (snd (logEvent ty d s))
      = forget_sink (snd (logEvent ty d (s\<lparr>storage := st, setItem_ok := ok\<rparr>)))"
    using sink_free_logEvent(2) [of ty d s]
      sink_free_logEvent(2) [of ty d "s\<lparr>storage := st, setItem_ok := ok\<rparr>"]
    by simp
  moreover have "warnings (snd (logEvent ty d s)) = warnings s @ [err]"
    "storage (snd (logEvent ty d s)) = storage s"
    using sink_untouched_before_persist [OF imp, of d s] by (simp_all add: after)
  ultimately show "fst (logEvent ty d s)
        = mkEvent ty d s (clock s (ticks s)) (clock s (Suc (ticks s)))
     \<and> take (Suc (length (events s))) (events (snd (logEvent ty d s)))
         = events s @ [fst (logEvent ty d s)]
     \<and> warnings (snd (logEvent ty d s)) = warnings s @ [err]
     \<and> storage (snd (logEvent ty d s)) = storage s
     \<and> forget_sink (snd (logEvent ty d s))
         = forget_sink (snd (logEvent ty d (s\<lparr>storage := st, setItem_ok := ok\<rparr>)))"
    using events_prefix_logEvent [of s ty d]
    by (simp add: fst_logEvent pushed_def)
qed

lemma broken_session_fails:
  "sink_append ev broken_session = Inl SyntaxError"
  by (simp add: sink_append_def broken_session_def newCollector_def)

theorem sink_failure_is_swallowed_witness:
  "isImportantEvent ''error''
   \<and> sink_append (fst (logEvent ''error'' NoData broken_session)) broken_session
       = Inl SyntaxError
   \<and> eventType (fst (logEvent ''error'' NoData broken_session)) = ''error''
   \<and> take 1 (events (snd (logEvent ''error'' NoData broken_session)))
       = [fst (logEvent ''error'' NoData broken_session)]
   \<and> warnings (snd (logEvent ''error'' NoData broken_session)) = [SyntaxError]
   \<and> storage (snd (logEvent ''error'' NoData broken_session)) = Corrupt
   \<and> forget_sink (snd (logEvent ''error'' NoData broken_session))
       = forget_sink (snd (logEvent ''error'' NoData
           (broken_session\<lparr>storage := Absent, setItem_ok := (\<lambda>es. True)\<rparr>)))"
proof -
  have imp: "isImportantEvent ''error''"
    by (simp add: isImportantEvent_def)
  have sel: "events broken_session = []" "warnings broken_session = []"
    "storage broken_session = Corrupt"
    by (simp_all add: broken_session_def newCollector_def)
  show ?thesis
    using sink_failure_is_swallowed [where ty = "''error''" and d = NoData
        and s = broken_session and err = SyntaxError and st = Absent and ok = "\<lambda>es. True"]
      imp broken_session_fails sel
    by (simp add: mkEvent_def)
qed

subsection \<open>The flag \<open>vrModeUsed\<close>\<close>

text \<open>
  Claim C10 says that the flag \<open>vrModeUsed\<close> of the summary is true exactly when
  \<open>logEvent\<close> was called with the event type \<open>vr_session_start\<close>, and that it stays
  false under every sequence of calls of the other methods. \<open>logEvent\<close> spreads its
  \<open>data\<close> after the event type, and \<open>logInteraction\<close> spreads its caller's \<open>data\<close>
  into the interaction that it logs. So a click whose \<open>data\<close> carries the key
  \<open>eventType\<close> with the value \<open>vr_session_start\<close> sets the flag without any call of
  \<open>logEvent\<close>; and a call of \<open>logEvent\<close> with the type \<open>vr_session_start\<close> whose
  \<open>data\<close> carries another \<open>eventType\<close> does not set it.
\<close>

theorem click_with_eventType_key_sets_vrModeUsed:
  "list_all other_method [marked_click]
   \<and> \<not> list_ex logs_vr_session_start [marked_click]
   \<and> sm_vrModeUsed (fst (getSessionSummary (run late_session [marked_click])))
   \<and> list_ex logs_vr_session_start [renamed_start]
   \<and> \<not> sm_vrModeUsed (fst (getSessionSummary (run late_session [renamed_start])))"
  by (simp add: summary_vrModeUsed vrModeUsed_run late_session_def marked_click_def
      renamed_start_def no_data_def no_overrides_def effectiveType_def)

text \<open>
  Claim C10, amended. After any sequence of calls on a new collector the flag
  \<open>vrModeUsed\<close> of the summary is true exactly when one of the calls logged an event
  that ends with the type \<open>vr_session_start\<close>: a call of \<open>logEvent\<close> whose \<open>data\<close>
  has that value under the key \<open>eventType\<close> or, without such a key, whose event type
  it is; or a call of \<open>logInteraction\<close> whose \<open>data\<close> has that value under the key
  \<open>eventType\<close>. The collector's own methods never log that type by themselves:
  \<open>setVRMode\<close> logs \<open>vr_mode_change\<close> and, through its handler,
  \<open>vr_experience_start\<close> or \<open>vr_experience_end\<close>. So after a sequence of calls of
  \<open>setVRMode\<close>, \<open>logSpatialData\<close>, \<open>logPerformance\<close>, the summary, the score and
  \<open>logInteraction\<close> without that key in its \<open>data\<close>, the flag is false.
\<close>

theorem vrModeUsed_iff_vr_session_start_logged:
  "sm_vrModeUsed (fst (getSessionSummary (run (newCollector sid plat clk st ok) cs)))
     = list_ex marks_vr_session_start cs
   \<and> (list_all unmarked_method cs \<longrightarrow>
        \<not> sm_vrModeUsed (fst (getSessionSummary (run (newCollector sid plat clk st ok) cs))))"
proof -
  have "list_all unmarked_method cs \<Longrightarrow> \<not> list_ex marks_vr_session_start cs"
    by (induction cs) (auto elim: unmarked_method.elims)
  then show ?thesis
    by (auto simp: summary_vrModeUsed vrModeUsed_run)
qed

theorem vrModeUsed_iff_vr_session_start_logged_witness:
  "list_all unmarked_method [SetVRMode True, click, SetVRMode False]
   \<and> \<not> sm_vrModeUsed (fst (getSessionSummary (run late_session
        [SetVRMode True, click, SetVRMode False])))
   \<and> sm_vrModeUsed (fst (getSessionSummary (run late_session
        [SetVRMode True, LogEvent ''vr_session_start'' NoData])))"
  using vrModeUsed_iff_vr_session_start_logged [of "''vr_1''" "''Windows''" "\<lambda>n. real n + 1"
      Absent "\<lambda>es. True" "[SetVRMode True, click, SetVRMode False]"]
    vrModeUsed_iff_vr_session_start_logged [of "''vr_1''" "''Windows''" "\<lambda>n. real n + 1"
      Absent "\<lambda>es. True" "[SetVRMode True, LogEvent ''vr_session_start'' NoData]"]
  by (simp add: late_session_def click_def no_data_def no_overrides_def)

end
